theory Spec2Isabelle
  imports Complex_Main
begin

section \<open>Strings and regular-expression replacement\<close>

text \<open>
  A source string is modelled as a \<^typ>\<open>string\<close>: each \<^typ>\<open>char\<close> stands for one code
  unit in the range 0..255. In that range the class \<open>\s\<close> of the regular expressions, which
  is also what \<open>String.prototype.trim\<close> strips, holds TAB, LF, VT, FF, CR, SPACE and NBSP;
  the line terminators seen by \<open>^\<close> under the \<open>m\<close> flag are LF and CR; \<open>\d\<close> is 0 to 9.
\<close>

definition is_space :: "char \<Rightarrow> bool" where
  "is_space c = (c \<in> set [CHR 0x09, CHR 0x0A, CHR 0x0B, CHR 0x0C, CHR 0x0D, CHR 0x20, CHR 0xA0])"

definition is_line_terminator :: "char \<Rightarrow> bool" where
  "is_line_terminator c = (c = CHR 0x0A \<or> c = CHR 0x0D)"

definition is_digit :: "char \<Rightarrow> bool" where
  "is_digit c = (c \<in> set ''0123456789'')"

definition trim :: "string \<Rightarrow> string" where
  "trim s = rev (dropWhile is_space (rev (dropWhile is_space s)))"

text \<open>
  A matcher stands for one regular expression: given whether the position is a line start
  (what \<open>^\<close> tests under the \<open>m\<close> flag) and the text from the position on, it returns the
  length of the match that starts there, if there is one.
\<close>

type_synonym matcher = "bool \<Rightarrow> string \<Rightarrow> nat option"

text \<open>
  \<open>text.replace(/re/g, rep)\<close>: the matches are looked for from left to right in the
  original text, each search starting where the previous match ended; the text between
  matches is kept. The counter is the number of characters of the current match still to
  be dropped; the flag says whether the previous character was a line terminator. An empty
  match inserts \<open>rep\<close> and the search moves on by one character.
\<close>

fun replace_go :: "matcher \<Rightarrow> string \<Rightarrow> nat \<Rightarrow> bool \<Rightarrow> string \<Rightarrow> string" where
  "replace_go m rep k bol [] = (if k = 0 \<and> m bol [] = Some 0 then rep else [])"
| "replace_go m rep (Suc k) bol (c # cs) = replace_go m rep k (is_line_terminator c) cs"
| "replace_go m rep 0 bol (c # cs) =
     (case m bol (c # cs) of
        None \<Rightarrow> c # replace_go m rep 0 (is_line_terminator c) cs
      | Some 0 \<Rightarrow> rep @ c # replace_go m rep 0 (is_line_terminator c) cs
      | Some (Suc n) \<Rightarrow> rep @ replace_go m rep n (is_line_terminator c) cs)"

definition replace_all :: "matcher \<Rightarrow> string \<Rightarrow> string \<Rightarrow> string" where
  "replace_all m rep s = replace_go m rep 0 True s"

text \<open>
  \<open>text.split(/re/)\<close> for an expression without anchors: the pieces between the matches,
  the last one included; a match is looked for at every position before the end of the
  text, and an empty match at the start of a piece is passed over.
\<close>

fun split_go :: "(string \<Rightarrow> nat option) \<Rightarrow> nat \<Rightarrow> string \<Rightarrow> string \<Rightarrow> string list" where
  "split_go m k cur [] = [cur]"
| "split_go m (Suc k) cur (c # cs) = split_go m k cur cs"
| "split_go m 0 cur (c # cs) =
     (case m (c # cs) of
        None \<Rightarrow> split_go m 0 (cur @ [c]) cs
      | Some 0 \<Rightarrow> (if cur = [] then split_go m 0 [c] cs else cur # split_go m 0 [c] cs)
      | Some (Suc n) \<Rightarrow> cur # split_go m n [] cs)"

definition split_all :: "(string \<Rightarrow> nat option) \<Rightarrow> string \<Rightarrow> string list" where
  "split_all m s = (if s = [] then (if m [] = None then [[]] else []) else split_go m 0 [] s)"

subsection \<open>The expressions of the source\<close>

text \<open>\<open>/(\*\*|\*|__|_)/\<close>: the alternatives are tried in this order.\<close>

definition rx_emphasis :: matcher where
  "rx_emphasis bol s =
     (case s of
        [] \<Rightarrow> None
      | c # cs \<Rightarrow>
          if c = CHR ''*'' then
            (case cs of [] \<Rightarrow> Some (Suc 0)
             | d # _ \<Rightarrow> if d = CHR ''*'' then Some (Suc (Suc 0)) else Some (Suc 0))
          else if c = CHR ''_'' then
            (case cs of [] \<Rightarrow> Some (Suc 0)
             | d # _ \<Rightarrow> if d = CHR ''_'' then Some (Suc (Suc 0)) else Some (Suc 0))
          else None)"

text \<open>\<open>/(\*\*|\*)/\<close>, the expression of the chat view.\<close>

definition rx_stars :: matcher where
  "rx_stars bol s =
     (case s of
        [] \<Rightarrow> None
      | c # cs \<Rightarrow>
          if c = CHR ''*'' then
            (case cs of [] \<Rightarrow> Some (Suc 0)
             | d # _ \<Rightarrow> if d = CHR ''*'' then Some (Suc (Suc 0)) else Some (Suc 0))
          else None)"

text \<open>\<open>/^#+\s*/m\<close>: at a line start, all the \<open>#\<close> and then all the white space.\<close>

definition rx_heading :: matcher where
  "rx_heading bol s =
     (let hs = takeWhile (\<lambda>c. c = CHR ''#'') s;
          ws = takeWhile is_space (dropWhile (\<lambda>c. c = CHR ''#'') s)
      in if bol \<and> hs \<noteq> [] then Some (length hs + length ws) else None)"

text \<open>
  \<open>/^(\s*[-+\d]+\.?)\s*/m\<close>: at a line start, all the white space (line breaks are white
  space), then at least one character of \<open>[-+\d]\<close>, then a dot if there is one, then all the
  white space. Every part is greedy and none can give characters back to the next one,
  since the next part never accepts what the previous one stopped on.
\<close>

definition is_marker_char :: "char \<Rightarrow> bool" where
  "is_marker_char c = (c = CHR ''-'' \<or> c = CHR ''+'' \<or> is_digit c)"

definition rx_list_marker :: matcher where
  "rx_list_marker bol s =
     (let ws = takeWhile is_space s;
          r1 = dropWhile is_space s;
          ds = takeWhile is_marker_char r1;
          r2 = dropWhile is_marker_char r1;
          dot = takeWhile (\<lambda>c. c = CHR ''.'') (take (Suc 0) r2);
          r3 = drop (length dot) r2;
          ws2 = takeWhile is_space r3
      in if bol \<and> ds \<noteq> [] then Some (length ws + length ds + length dot + length ws2)
         else None)"

text \<open>\<open>/^>\s*/m\<close>, used by the salary view only.\<close>

definition rx_blockquote :: matcher where
  "rx_blockquote bol s =
     (case s of
        [] \<Rightarrow> None
      | c # cs \<Rightarrow> if bol \<and> c = CHR ''>'' then Some (Suc (length (takeWhile is_space cs)))
                  else None)"

text \<open>
  \<open>/(\r?\n){3,}/\<close>: as many line breaks, each LF or CR LF, as there are in a row, at least
  three of them.
\<close>

fun line_breaks :: "string \<Rightarrow> nat \<times> nat" where
  "line_breaks [] = (0, 0)"
| "line_breaks [c] = (if c = CHR 0x0A then (Suc 0, Suc 0) else (0, 0))"
| "line_breaks (c # d # cs) =
     (if c = CHR 0x0A then
        (case line_breaks (d # cs) of (n, l) \<Rightarrow> (Suc n, Suc l))
      else if c = CHR 0x0D \<and> d = CHR 0x0A then
        (case line_breaks cs of (n, l) \<Rightarrow> (Suc n, Suc (Suc l)))
      else (0, 0))"

definition rx_newlines3 :: matcher where
  "rx_newlines3 bol s =
     (case line_breaks s of (n, l) \<Rightarrow> if 3 \<le> n then Some l else None)"

text \<open>\<open>/\r?\n/\<close>: one line break.\<close>

definition rx_line_break :: matcher where
  "rx_line_break bol s =
     (case s of
        [] \<Rightarrow> None
      | c # cs \<Rightarrow>
          if c = CHR 0x0A then Some (Suc 0)
          else if c = CHR 0x0D then
            (case cs of [] \<Rightarrow> None
             | d # _ \<Rightarrow> if d = CHR 0x0A then Some (Suc (Suc 0)) else None)
          else None)"

text \<open>
  \<open>/\r?\n\s*\r?\n/\<close>: a line break, then white space that ends in a second line break.
  \<open>\s*\<close> first takes the whole run of white space and gives characters back one at a time
  until \<open>\r?\n\<close> matches, so the match ends right after the last LF of the run; there is
  no match when the run holds no LF.
\<close>

definition blank_tail :: "string \<Rightarrow> nat option" where
  "blank_tail s =
     (let w = takeWhile is_space s
      in if CHR 0x0A \<in> set w
         then Some (length w - length (takeWhile (\<lambda>c. c \<noteq> CHR 0x0A) (rev w)))
         else None)"

definition rx_para_break :: "string \<Rightarrow> nat option" where
  "rx_para_break s =
     (case rx_line_break False s of
        None \<Rightarrow> None
      | Some k \<Rightarrow> (case blank_tail (drop k s) of None \<Rightarrow> None | Some l \<Rightarrow> Some (k + l)))"

section \<open>The text normalizers\<close>

text \<open>\<open>cleanResponseFormatting\<close> of the chat view.\<close>

definition cleanResponseFormatting :: "string \<Rightarrow> string" where
  "cleanResponseFormatting text =
     (if text = [] then []
      else trim (replace_all rx_newlines3 [CHR 0x0A, CHR 0x0A]
                  (replace_all rx_list_marker []
                    (replace_all rx_heading []
                      (replace_all rx_stars [] text)))))"

text \<open>\<open>cleanText\<close> of the salary view.\<close>

definition cleanText_salary :: "string \<Rightarrow> string" where
  "cleanText_salary text =
     (if text = [] then []
      else trim (replace_all rx_blockquote []
                  (replace_all rx_list_marker []
                    (replace_all rx_heading []
                      (replace_all rx_emphasis [] text)))))"

text \<open>\<open>cleanText\<close> of the interview view: the same without the block-quote step.\<close>

definition cleanText_interview :: "string \<Rightarrow> string" where
  "cleanText_interview text =
     (if text = [] then []
      else trim (replace_all rx_list_marker []
                  (replace_all rx_heading []
                    (replace_all rx_emphasis [] text))))"

text \<open>
  \<open>textToHtmlParagraphs\<close> of the cover-letter view. \<open>paragraph_blocks\<close> is the array before
  \<open>join\<close>, each block without its \<open>p\<close> tags.
\<close>

definition paragraph_blocks :: "string \<Rightarrow> string list" where
  "paragraph_blocks text =
     map (replace_all rx_line_break ''<br>'')
       (filter (\<lambda>p. trim p \<noteq> [])
         (split_all rx_para_break (trim (replace_all rx_emphasis [] text))))"

definition p_tag :: "string \<Rightarrow> string" where
  "p_tag content = ''<p class=\"mb-4 leading-relaxed\">'' @ content @ ''</p>''"

definition textToHtmlParagraphs :: "string \<Rightarrow> string" where
  "textToHtmlParagraphs text =
     (if text = [] then [] else concat (map p_tag (paragraph_blocks text)))"

section \<open>Requests, replies and notifications\<close>

text \<open>
  What one \<open>fetch\<close> followed by \<open>response.json()\<close> can give: the promise rejects, the
  status is not ok, the body gives no object (\<open>json()\<close> rejects, or it yields \<open>null\<close> and
  the first property read throws), or the body is an object. All but the last end in the
  \<open>catch\<close> block before the handler has changed anything more.
\<close>

datatype 'a fetch_result = Rejected | Not_ok | Bad_json | Json 'a

text \<open>
  A toast: its title, its description and whether its variant is \<open>destructive\<close>. The
  description of the analysis toast is the template \<open>ATS Score: ${score}%\<close> with the value
  put in its hole, absent when the payload has no score.
\<close>

datatype toast_text = Plain string | Ats_score "rat option"

record toast =
  title :: string
  description :: toast_text
  destructive :: bool

section \<open>The analysis view\<close>

text \<open>
  The payload of \<open>/rate_resumes\<close>, as far as the view reads it. The state is typed \<open>any\<close>
  and nothing checks the payload, so every key of a result may be absent. A number is the
  rational value of the finite double that \<open>response.json()\<close> made of the JSON number.
\<close>

record score_breakdown =
  skill_match :: rat
  semantic_similarity :: rat
  keyword_density_bonus :: rat

record keyword_analysis =
  matching_keywords :: "string list option"
  missing_keywords :: "string list option"

record ats_status =
  level :: string
  label :: string

record analysis_result =
  score :: "rat option"
  summary :: "string option"
  ats_status :: "ats_status option"
  score_breakdown :: "score_breakdown option"
  keyword_analysis :: "keyword_analysis option"
  recommendations :: "string list option"

record analysis_data =
  results :: "analysis_result list option"

record analysis_state =
  jobRequirement :: string
  isAnalyzing :: bool
  analysisResult :: "analysis_result option"
  toasts :: "toast list"
  requests :: "string list"

text \<open>
  \<open>handleAnalyze\<close>. The log \<open>requests\<close> holds the \<open>job_requirement\<close> of every request
  sent to \<open>/rate_resumes\<close>; \<open>reply\<close> is what the request of this call comes back with.
  \<open>data.results[0]\<close> throws when \<open>results\<close> is absent; on an empty array it is
  \<open>undefined\<close>, which is stored before reading its \<open>score\<close> throws.
\<close>

definition analysis_failed :: "analysis_state \<Rightarrow> analysis_state" where
  "analysis_failed st =
     st\<lparr>toasts := toasts st @
          [\<lparr>title = ''Analysis failed'', description = Plain ''Please try again'',
            destructive = True\<rparr>],
        isAnalyzing := False\<rparr>"

definition handleAnalyze :: "analysis_data fetch_result \<Rightarrow> analysis_state \<Rightarrow> analysis_state" where
  "handleAnalyze reply st =
     (if trim (jobRequirement st) = [] then
        st\<lparr>toasts := toasts st @
             [\<lparr>title = ''Job requirement required'',
               description = Plain ''Please enter a job description'',
               destructive = True\<rparr>]\<rparr>
      else
        let st1 = st\<lparr>isAnalyzing := True, requests := requests st @ [jobRequirement st]\<rparr>
        in case reply of
             Json data \<Rightarrow>
               (case results data of
                  None \<Rightarrow> analysis_failed st1
                | Some [] \<Rightarrow> analysis_failed (st1\<lparr>analysisResult := None\<rparr>)
                | Some (r # _) \<Rightarrow>
                    st1\<lparr>analysisResult := Some r,
                        toasts := toasts st1 @
                          [\<lparr>title = ''Analysis complete'', description = Ats_score (score r),
                            destructive = False\<rparr>],
                        isAnalyzing := False\<rparr>)
           | _ \<Rightarrow> analysis_failed st1)"

text \<open>\<open>getScoreColor\<close> and \<open>getProgressColor\<close>.\<close>

definition getScoreColor :: "rat \<Rightarrow> string" where
  "getScoreColor s =
     (if s \<ge> 85 then ''text-green-600 dark:text-green-400''
      else if s \<ge> 70 then ''text-yellow-600 dark:text-yellow-400''
      else if s \<ge> 50 then ''text-orange-600 dark:text-orange-400''
      else ''text-red-600 dark:text-red-400'')"

definition getProgressColor :: "rat \<Rightarrow> string" where
  "getProgressColor s =
     (if s \<ge> 85 then ''bg-green-600''
      else if s \<ge> 70 then ''bg-yellow-600''
      else if s \<ge> 50 then ''bg-orange-600''
      else ''bg-red-600'')"

text \<open>
  The four bands in rising order, read off the colour class: red, orange, yellow, green.
  The two functions name the band by different classes.
\<close>

definition band_of :: "string \<Rightarrow> nat" where
  "band_of cls =
     (if cls = ''text-green-600 dark:text-green-400'' \<or> cls = ''bg-green-600'' then 3
      else if cls = ''text-yellow-600 dark:text-yellow-400'' \<or> cls = ''bg-yellow-600'' then 2
      else if cls = ''text-orange-600 dark:text-orange-400'' \<or> cls = ''bg-orange-600'' then 1
      else 0)"

text \<open>
  What the view shows of a stored result: the status badge, the score with its colour, the
  rows of the score breakdown (label, value shown before the percent sign, value given to
  the progress bar; the third bar is given \<open>keyword_density_bonus * 10\<close>) and the counts on
  the two keyword cards. Nothing is rendered for an empty
  state. Reading \<open>level\<close> of an absent \<open>ats_status\<close> or \<open>matching_keywords\<close> of an absent
  \<open>keyword_analysis\<close> throws during rendering. An absent score fails every comparison of
  \<open>getScoreColor\<close>.
\<close>

datatype render_error = TypeError

text \<open>
  The product of two numbers, as \<open>*\<close> computes it on finite doubles: the exact product
  rounded to the nearest double, a tie going to the even significand; below
  \<open>2^-1022\<close> the doubles are \<open>2^-1074\<close> apart, and a result that rounds to
  \<open>2^1024\<close> or more is an infinity. \<open>binade a\<close> is the \<open>e\<close> with
  \<open>2^e \<le> a < 2^(e+1)\<close> for a positive \<open>a\<close>. The sign of a zero is not kept.
\<close>

datatype js_number = Finite rat | Pos_infinity | Neg_infinity

definition pow2 :: "int \<Rightarrow> rat" where
  "pow2 e = (if 0 \<le> e then 2 ^ nat e else 1 / 2 ^ nat (- e))"

function log2_floor :: "int \<Rightarrow> int" where
  "log2_floor n = (if n < 2 then 0 else 1 + log2_floor (n div 2))"
  by auto
termination
  by (relation "measure nat") auto

declare log2_floor.simps [simp del]

definition binade :: "rat \<Rightarrow> int" where
  "binade a =
     (if 1 \<le> a then log2_floor \<lfloor>a\<rfloor> else - (log2_floor (\<lceil>1 / a\<rceil> - 1) + 1))"

definition round_half_even :: "rat \<Rightarrow> int" where
  "round_half_even y =
     (let f = \<lfloor>y\<rfloor>; r = y - of_int f
      in if r < 1 / 2 then f else if 1 / 2 < r then f + 1 else if even f then f else f + 1)"

definition double_round :: "rat \<Rightarrow> js_number" where
  "double_round x =
     (if x = 0 then Finite 0
      else
        let a = \<bar>x\<bar>;
            e = max (binade a) (- 1022);
            q = pow2 (e - 52);
            n = round_half_even (a / q)
        in if 1024 \<le> e \<or> (e = 1023 \<and> n = 2 ^ 53)
           then (if 0 < x then Pos_infinity else Neg_infinity)
           else Finite (if 0 < x then of_int n * q else - (of_int n * q)))"

definition js_times :: "rat \<Rightarrow> rat \<Rightarrow> js_number" where
  "js_times x y = double_round (x * y)"

record breakdown_row =
  row_label :: string
  row_value :: rat
  row_bar :: js_number

record analysis_view =
  badge_variant :: string
  badge_label :: string
  shown_score :: "rat option"
  score_class :: string
  breakdown :: "breakdown_row list"
  matching_count :: nat
  missing_count :: nat

definition breakdown_rows :: "score_breakdown option \<Rightarrow> breakdown_row list" where
  "breakdown_rows sb =
     (case sb of
        None \<Rightarrow> []
      | Some b \<Rightarrow>
          [\<lparr>row_label = ''Keyword Match (60%)'', row_value = skill_match b,
            row_bar = Finite (skill_match b)\<rparr>,
           \<lparr>row_label = ''Content Match (30%)'', row_value = semantic_similarity b,
            row_bar = Finite (semantic_similarity b)\<rparr>,
           \<lparr>row_label = ''Density Bonus (10%)'', row_value = keyword_density_bonus b,
            row_bar = js_times (keyword_density_bonus b) 10\<rparr>])"

definition keyword_count :: "string list option \<Rightarrow> nat" where
  "keyword_count ks = (case ks of None \<Rightarrow> 0 | Some l \<Rightarrow> length l)"

definition render_analysis :: "analysis_state \<Rightarrow> render_error + analysis_view option" where
  "render_analysis st =
     (case analysisResult st of
        None \<Rightarrow> Inr None
      | Some r \<Rightarrow>
          (case ats_status r of
             None \<Rightarrow> Inl TypeError
           | Some a \<Rightarrow>
               (case keyword_analysis r of
                  None \<Rightarrow> Inl TypeError
                | Some ka \<Rightarrow>
                    Inr (Some
                      \<lparr>badge_variant = (if level a = ''high'' then ''default'' else ''secondary''),
                       badge_label = label a,
                       shown_score = score r,
                       score_class =
                         (case score r of
                            None \<Rightarrow> ''text-red-600 dark:text-red-400''
                          | Some s \<Rightarrow> getScoreColor s),
                       breakdown = breakdown_rows (score_breakdown r),
                       matching_count = keyword_count (matching_keywords ka),
                       missing_count = keyword_count (missing_keywords ka)\<rparr>))))"

section \<open>The interview-preparation view\<close>

text \<open>
  The payload of \<open>/interview_prep\<close>: each of the four arrays may be absent. An empty array
  is truthy in the source and passes the check.
\<close>

record interview_prep_data =
  technical_questions :: "string list option"
  behavioral_questions :: "string list option"
  key_talking_points :: "string list option"
  questions_to_ask :: "string list option"

record interview_state =
  prep_jobRequirement :: string
  prep_isGenerating :: bool
  prepData :: "interview_prep_data option"
  prep_toasts :: "toast list"
  prep_requests :: "string list"

definition prep_failed :: "interview_state \<Rightarrow> interview_state" where
  "prep_failed st =
     st\<lparr>prep_toasts := prep_toasts st @
          [\<lparr>title = ''Generation failed'',
            description =
              Plain ''Could not connect to the API or received bad data. Please try again.'',
            destructive = True\<rparr>],
        prep_isGenerating := False\<rparr>"

text \<open>\<open>handleGenerate\<close> of the interview view.\<close>

definition handleGenerate_interview ::
  "interview_prep_data fetch_result \<Rightarrow> interview_state \<Rightarrow> interview_state" where
  "handleGenerate_interview reply st =
     (if trim (prep_jobRequirement st) = [] then
        st\<lparr>prep_toasts := prep_toasts st @
             [\<lparr>title = ''Job requirement required'',
               description = Plain ''Please enter a job description'',
               destructive = True\<rparr>]\<rparr>
      else
        let st1 = st\<lparr>prep_isGenerating := True, prepData := None,
                     prep_requests := prep_requests st @ [prep_jobRequirement st]\<rparr>
        in case reply of
             Json data \<Rightarrow>
               (case (technical_questions data, behavioral_questions data) of
                  (Some tq, Some bq) \<Rightarrow>
                    st1\<lparr>prepData := Some
                          \<lparr>technical_questions = Some (map cleanText_interview tq),
                           behavioral_questions = Some (map cleanText_interview bq),
                           key_talking_points =
                             Some (case key_talking_points data of
                                     Some kp \<Rightarrow> map cleanText_interview kp | None \<Rightarrow> []),
                           questions_to_ask =
                             Some (case questions_to_ask data of
                                     Some qa \<Rightarrow> map cleanText_interview qa | None \<Rightarrow> [])\<rparr>,
                        prep_toasts := prep_toasts st1 @
                          [\<lparr>title = ''Interview prep ready'',
                            description = Plain ''Your personalized interview guide is ready'',
                            destructive = False\<rparr>],
                        prep_isGenerating := False\<rparr>
                | _ \<Rightarrow> prep_failed st1)
           | _ \<Rightarrow> prep_failed st1)"

section \<open>The chat view\<close>

datatype role = User | Assistant

record message =
  role :: role
  content :: string

text \<open>
  The \<open>response\<close> key of the payload of \<open>/career_roadmap\<close>: a string; absent or another
  falsy value, for which \<open>cleanResponseFormatting\<close> returns the empty string; or a truthy
  value that is no string, on which \<open>text.replace\<close> throws.
\<close>

datatype response_value = Text string | Falsy | Truthy_non_string

record chat_request =
  query :: string
  req_domain :: string

record chat_state =
  messages :: "message list"
  input :: string
  isLoading :: bool
  chat_toasts :: "toast list"
  chat_requests :: "chat_request list"

text \<open>\<open>textToSend = messageText || input.trim()\<close>; an absent or empty argument is falsy.\<close>

definition textToSend :: "string option \<Rightarrow> chat_state \<Rightarrow> string" where
  "textToSend messageText st =
     (case messageText of
        None \<Rightarrow> trim (input st)
      | Some t \<Rightarrow> if t = [] then trim (input st) else t)"

text \<open>
  \<open>handleSend\<close> runs in two parts with an \<open>await\<close> between them, and other handlers can
  run in between. The first part, up to the request: nothing happens without a text;
  otherwise the input is cleared, the user's message appended and the loading flag set.
\<close>

definition handleSend_begin :: "string \<Rightarrow> string option \<Rightarrow> chat_state \<Rightarrow> chat_state" where
  "handleSend_begin domain messageText st =
     (let t = textToSend messageText st in
      if t = [] then st
      else st\<lparr>input := [],
              messages := messages st @ [\<lparr>role = User, content = t\<rparr>],
              isLoading := True,
              chat_requests := chat_requests st @ [\<lparr>query = t, req_domain = domain\<rparr>]\<rparr>)"

text \<open>
  The second part, when the reply is there, on the state of that moment: either
  \<open>setMessages(prev => [...prev, assistant])\<close>, or the toast and
  \<open>setMessages(prev => prev.slice(0, -1))\<close> of the \<open>catch\<close> block, whose comment reads
  "Remove the user message if request failed to allow resending"; \<open>finally\<close> clears the
  loading flag. The \<open>try\<close> block throws when the promise rejects, when the status is not
  ok, when the body gives no object and when \<open>response\<close> is a truthy value that is no string.
\<close>

definition handleSend_settle :: "response_value fetch_result \<Rightarrow> chat_state \<Rightarrow> chat_state" where
  "handleSend_settle reply st =
     (let answered = (\<lambda>c. st\<lparr>messages := messages st @ [\<lparr>role = Assistant, content = c\<rparr>],
                                isLoading := False\<rparr>);
          failed = st\<lparr>chat_toasts := chat_toasts st @
                         [\<lparr>title = ''Connection Error'',
                           description = Plain
                             ''Could not connect to the AI model. Please check the API server.'',
                           destructive = True\<rparr>],
                       messages := butlast (messages st),
                       isLoading := False\<rparr>
      in case reply of
           Json (Text r) \<Rightarrow> answered (cleanResponseFormatting r)
         | Json Falsy \<Rightarrow> answered []
         | _ \<Rightarrow> failed)"

text \<open>A send that nothing interrupts: the first part, then at once the second.\<close>

definition handleSend ::
  "string \<Rightarrow> string option \<Rightarrow> response_value fetch_result \<Rightarrow> chat_state \<Rightarrow> chat_state" where
  "handleSend domain messageText reply st =
     (if textToSend messageText st = [] then st
      else handleSend_settle reply (handleSend_begin domain messageText st))"

text \<open>
  \<open>initialSuggestedQuestions\<close>, title and question. The first four are the badges under
  the message list; a click on one calls \<open>handleSend\<close> with its question. The badges are
  not disabled while a request is pending; the input field and the send button are.
\<close>

definition initialSuggestedQuestions :: "(string \<times> string) list" where
  "initialSuggestedQuestions =
     [(''Key Skills'', ''What are the key skills I should focus on to advance my career?''),
      (''Senior Role'', ''How can I transition from my current position to a senior role?''),
      (''Certifications'',
       ''What certifications would be most valuable to boost my resume in my field?''),
      (''Salary Negotiate'', ''What strategies should I use to negotiate a better salary?''),
      (''Interview Qs'', ''What are common interview questions and ideal answers in my field?''),
      (''LinkedIn Profile'', ''How can I improve my LinkedIn profile to attract recruiters?'')]"

text \<open>\<open>handleQuickQuestion\<close>, up to the request that it leaves pending.\<close>

definition handleQuickQuestion :: "string \<Rightarrow> string \<Rightarrow> chat_state \<Rightarrow> chat_state" where
  "handleQuickQuestion domain question st = handleSend_begin domain (Some question) st"

section \<open>The cover-letter view\<close>

record cover_letter_request =
  job_requirement :: string
  company_name :: string

record cover_letter_state =
  cl_jobRequirement :: string
  companyName :: string
  cl_isGenerating :: bool
  coverLetter :: string
  cl_toasts :: "toast list"
  cl_requests :: "cover_letter_request list"

definition cover_letter_failed :: "cover_letter_state \<Rightarrow> cover_letter_state" where
  "cover_letter_failed st =
     st\<lparr>cl_toasts := cl_toasts st @
          [\<lparr>title = ''Generation failed'',
            description = Plain ''Please check your network and API connection.'',
            destructive = True\<rparr>],
        cl_isGenerating := False\<rparr>"

text \<open>
  \<open>handleGenerate\<close> of the cover-letter view. The payload is read for its \<open>cover_letter\<close>
  key only: a string, or nothing; the empty string is falsy and refused like an absent key.
\<close>

definition handleGenerate_cover ::
  "string option fetch_result \<Rightarrow> cover_letter_state \<Rightarrow> cover_letter_state" where
  "handleGenerate_cover reply st =
     (if trim (cl_jobRequirement st) = [] then
        st\<lparr>cl_toasts := cl_toasts st @
             [\<lparr>title = ''Job requirement required'',
               description = Plain ''Please enter a job description'',
               destructive = True\<rparr>]\<rparr>
      else
        let st1 = st\<lparr>cl_isGenerating := True, coverLetter := [],
                     cl_requests := cl_requests st @
                       [\<lparr>job_requirement = cl_jobRequirement st,
                         company_name =
                           (if trim (companyName st) = [] then ''Hiring Team''
                            else trim (companyName st))\<rparr>]\<rparr>
        in case reply of
             Json (Some letter) \<Rightarrow>
               (if letter = [] then cover_letter_failed st1
                else st1\<lparr>coverLetter := letter,
                         cl_toasts := cl_toasts st1 @
                           [\<lparr>title = ''Cover letter generated'',
                             description = Plain ''Your personalized cover letter is ready'',
                             destructive = False\<rparr>],
                         cl_isGenerating := False\<rparr>)
           | _ \<Rightarrow> cover_letter_failed st1)"

section \<open>Concrete states and payloads\<close>

definition blank_analysis_state :: analysis_state where
  "blank_analysis_state =
     \<lparr>jobRequirement = '' \<newline> '', isAnalyzing = False, analysisResult = None,
      toasts = [], requests = []\<rparr>"

definition greeted_chat :: chat_state where
  "greeted_chat =
     \<lparr>messages = [\<lparr>role = Assistant, content = ''Hello!''\<rparr>], input = '' hi '',
      isLoading = False, chat_toasts = [], chat_requests = []\<rparr>"

definition unnamed_company :: cover_letter_state where
  "unnamed_company =
     \<lparr>cl_jobRequirement = ''Nurse'', companyName = ''  '', cl_isGenerating = False,
      coverLetter = [], cl_toasts = [], cl_requests = []\<rparr>"

definition named_company :: cover_letter_state where
  "named_company =
     \<lparr>cl_jobRequirement = ''Nurse'', companyName = '' Acme '', cl_isGenerating = False,
      coverLetter = [], cl_toasts = [], cl_requests = []\<rparr>"

definition nurse_analysis_state :: analysis_state where
  "nurse_analysis_state =
     \<lparr>jobRequirement = ''Nurse'', isAnalyzing = False, analysisResult = None,
      toasts = [], requests = []\<rparr>"

definition nurse_prep_state :: interview_state where
  "nurse_prep_state =
     \<lparr>prep_jobRequirement = ''Nurse'', prep_isGenerating = False, prepData = None,
      prep_toasts = [], prep_requests = []\<rparr>"

definition full_breakdown :: score_breakdown where
  "full_breakdown =
     \<lparr>skill_match = 100, semantic_similarity = 100, keyword_density_bonus = 10\<rparr>"

definition fair_breakdown :: score_breakdown where
  "fair_breakdown =
     \<lparr>skill_match = 80, semantic_similarity = 70, keyword_density_bonus = 8\<rparr>"

text \<open>The double that the JSON number \<open>0.57\<close> is read as.\<close>

definition double_057 :: rat where
  "double_057 = 5134103575202365 / 9007199254740992"

definition fractional_breakdown :: score_breakdown where
  "fractional_breakdown =
     \<lparr>skill_match = 80, semantic_similarity = 70, keyword_density_bonus = double_057\<rparr>"

definition mismatched_result :: analysis_result where
  "mismatched_result =
     \<lparr>score = Some 10, summary = Some ''Weak match'',
      ats_status = Some \<lparr>level = ''low'', label = ''Low Match''\<rparr>,
      score_breakdown = Some full_breakdown,
      keyword_analysis = Some \<lparr>matching_keywords = Some [''sql''], missing_keywords = Some []\<rparr>,
      recommendations = Some []\<rparr>"

definition fair_result :: analysis_result where
  "fair_result =
     \<lparr>score = Some 77, summary = Some ''Good match'',
      ats_status = Some \<lparr>level = ''high'', label = ''Good Match''\<rparr>,
      score_breakdown = Some fair_breakdown,
      keyword_analysis = Some \<lparr>matching_keywords = Some [''sql''], missing_keywords = Some []\<rparr>,
      recommendations = Some []\<rparr>"

definition fractional_result :: analysis_result where
  "fractional_result =
     \<lparr>score = Some 70, summary = Some ''Good match'',
      ats_status = Some \<lparr>level = ''high'', label = ''Good Match''\<rparr>,
      score_breakdown = Some fractional_breakdown,
      keyword_analysis = Some \<lparr>matching_keywords = Some [''sql''], missing_keywords = Some []\<rparr>,
      recommendations = Some []\<rparr>"

definition fractional_state :: analysis_state where
  "fractional_state =
     \<lparr>jobRequirement = ''Nurse'', isAnalyzing = False, analysisResult = Some fractional_result,
      toasts = [], requests = [''Nurse'']\<rparr>"

definition fair_state :: analysis_state where
  "fair_state =
     \<lparr>jobRequirement = ''Nurse'', isAnalyzing = False, analysisResult = Some fair_result,
      toasts = [], requests = [''Nurse'']\<rparr>"

definition no_breakdown_result :: analysis_result where
  "no_breakdown_result =
     \<lparr>score = Some 72, summary = Some ''Good match'',
      ats_status = Some \<lparr>level = ''medium'', label = ''Good Match''\<rparr>,
      score_breakdown = None,
      keyword_analysis = Some \<lparr>matching_keywords = Some [''sql''], missing_keywords = None\<rparr>,
      recommendations = None\<rparr>"

definition no_keywords_result :: analysis_result where
  "no_keywords_result =
     \<lparr>score = Some 72, summary = Some ''Good match'',
      ats_status = Some \<lparr>level = ''medium'', label = ''Good Match''\<rparr>,
      score_breakdown = Some full_breakdown,
      keyword_analysis = None,
      recommendations = Some []\<rparr>"

definition no_technical_prep :: interview_prep_data where
  "no_technical_prep =
     \<lparr>technical_questions = None, behavioral_questions = Some [''Tell me about a conflict''],
      key_talking_points = Some [], questions_to_ask = Some []\<rparr>"

definition questions_only_prep :: interview_prep_data where
  "questions_only_prep =
     \<lparr>technical_questions = Some [''1. Why **nursing**?''],
      behavioral_questions = Some [''- Tell me about a conflict''],
      key_talking_points = None, questions_to_ask = None\<rparr>"

section \<open>The score formula of the specification\<close>

text \<open>
  The specification's words, not the source's: the overall score is
  \<open>round(0.6 * skillMatch + 0.3 * semanticSimilarity + (keywordDensityBonus / 10) * 100 * 0.1)\<close>.
  No function of the source computes it; it is defined here to be compared with what the
  view shows.
\<close>

definition spec_weighted_score :: "score_breakdown \<Rightarrow> int" where
  "spec_weighted_score b =
     round (6 / 10 * skill_match b + 3 / 10 * semantic_similarity b
            + keyword_density_bonus b / 10 * 100 * (1 / 10))"

section \<open>Predicates and constructions used in the statements and proofs\<close>

text \<open>
  The characters that some expression of the normalizers can delete: white space, \<open>-\<close>,
  \<open>+\<close>, digits, \<open>*\<close>, \<open>_\<close>, \<open>#\<close>, the dot and \<open>>\<close>.
\<close>

definition is_markup :: "char \<Rightarrow> bool" where
  "is_markup c = (is_space c \<or> is_marker_char c \<or> c \<in> set ''*_#.>'')"

text \<open>No match of the expression at any position of the text.\<close>

fun never_matches :: "matcher \<Rightarrow> bool \<Rightarrow> string \<Rightarrow> bool" where
  "never_matches m bol [] = (m bol [] = None)"
| "never_matches m bol (c # cs) =
     (m bol (c # cs) = None \<and> never_matches m (is_line_terminator c) cs)"

text \<open>
  A text is marker-free when at no line start the first character after the white space
  is \<open>#\<close>, \<open>>\<close>, \<open>-\<close>, \<open>+\<close> or a digit.
\<close>

definition begins_with_marker :: "string \<Rightarrow> bool" where
  "begins_with_marker t =
     (case dropWhile is_space t of
        [] \<Rightarrow> False
      | c # _ \<Rightarrow> c = CHR ''#'' \<or> c = CHR ''>'' \<or> is_marker_char c)"

fun marker_free :: "bool \<Rightarrow> string \<Rightarrow> bool" where
  "marker_free bol [] = True"
| "marker_free bol (c # cs) =
     ((if bol then \<not> begins_with_marker (c # cs) else True)
      \<and> marker_free (is_line_terminator c) cs)"

text \<open>
  Paragraphs joined by \<open>k\<close> line feeds; a plain paragraph is not empty, has no white
  space at either end and holds no line break and no emphasis marker.
\<close>

fun join_paragraphs :: "nat \<Rightarrow> string list \<Rightarrow> string" where
  "join_paragraphs k [] = []"
| "join_paragraphs k [p] = p"
| "join_paragraphs k (p # q # ps) = p @ replicate k (CHR 0x0A) @ join_paragraphs k (q # ps)"

definition plain_paragraph :: "string \<Rightarrow> bool" where
  "plain_paragraph p =
     (p \<noteq> [] \<and> trim p = p \<and> list_all (\<lambda>c. c \<notin> set [CHR 0x0A, CHR 0x0D, CHR ''*'', CHR ''_'']) p)"

section \<open>Properties\<close>

subsection \<open>Blank input\<close>

lemma trim_empty_iff: "trim s = [] \<longleftrightarrow> list_all is_space s"
proof
  assume "trim s = []"
  then have blank: "dropWhile is_space (rev (dropWhile is_space s)) = []"
    by (simp add: trim_def)
  show "list_all is_space s"
  proof (cases "dropWhile is_space s")
    case Nil
    then show ?thesis by (simp add: list_all_iff)
  next
    case (Cons c cs)
    then have "\<not> is_space c" using hd_dropWhile[of is_space s] by auto
    moreover have "c \<in> set (rev (dropWhile is_space s))" using Cons by simp
    ultimately show ?thesis using blank by auto
  qed
next
  assume "list_all is_space s"
  then have "dropWhile is_space s = []"
    by (simp add: list_all_iff)
  then show "trim s = []"
    by (simp add: trim_def del: dropWhile_eq_Nil_conv)
qed

subsection \<open>Score bands\<close>

text \<open>
  C8. The colour band of a score is cut at 85, 70 and 50: green from 85, yellow from 70,
  orange from 50, red below; \<open>getProgressColor\<close> gives the same band as \<open>getScoreColor\<close>;
  and the band never falls when the score rises.
\<close>

theorem score_band_thresholds_monotone:
  "band_of (getScoreColor s) =
     (if s \<ge> 85 then 3 else if s \<ge> 70 then 2 else if s \<ge> 50 then 1 else 0)
   \<and> band_of (getProgressColor s) = band_of (getScoreColor s)
   \<and> (s \<le> t \<longrightarrow> band_of (getScoreColor s) \<le> band_of (getScoreColor t))"
  by (simp add: band_of_def getScoreColor_def getProgressColor_def)

theorem score_band_witness:
  "(60::rat) \<le> 90 \<and> band_of (getScoreColor 60) = 1 \<and> band_of (getProgressColor 90) = 3
   \<and> band_of (getScoreColor 60) \<le> band_of (getScoreColor 90)"
proof -
  have "band_of (getProgressColor 90) = band_of (getScoreColor 90)"
    using score_band_thresholds_monotone[of 90 90] by (rule conjunct1[OF conjunct2])
  moreover have "band_of (getScoreColor 90) = 3"
    using score_band_thresholds_monotone[of 90 90] by simp
  moreover have "band_of (getScoreColor 60) = 1"
    using score_band_thresholds_monotone[of 60 90] by simp
  ultimately show ?thesis by simp
qed

subsection \<open>Validation of the job description\<close>

text \<open>
  C7. When the job description is blank (empty or white space only), \<open>handleAnalyze\<close> does
  nothing but show the destructive toast "Job requirement required": whatever the server
  would have answered, no request is added to the log, the stored result and the loading
  flag are as before.
\<close>

theorem blank_job_description_rejected:
  assumes "list_all is_space (jobRequirement st)"
  shows "handleAnalyze reply st =
           st\<lparr>toasts := toasts st @
             [\<lparr>title = ''Job requirement required'',
               description = Plain ''Please enter a job description'',
               destructive = True\<rparr>]\<rparr>
         \<and> requests (handleAnalyze reply st) = requests st
         \<and> analysisResult (handleAnalyze reply st) = analysisResult st
         \<and> isAnalyzing (handleAnalyze reply st) = isAnalyzing st"
  using assms by (simp add: handleAnalyze_def trim_empty_iff)

theorem blank_job_description_witness:
  "list_all is_space (jobRequirement blank_analysis_state)
   \<and> requests (handleAnalyze (Json \<lparr>results = Some []\<rparr>) blank_analysis_state) = []
   \<and> analysisResult (handleAnalyze (Json \<lparr>results = Some []\<rparr>) blank_analysis_state) = None
   \<and> length (toasts (handleAnalyze (Json \<lparr>results = Some []\<rparr>) blank_analysis_state)) = 1"
proof -
  have blank: "list_all is_space (jobRequirement blank_analysis_state)"
    by (simp add: blank_analysis_state_def is_space_def)
  show ?thesis
    using blank blank_job_description_rejected[OF blank, of "Json \<lparr>results = Some []\<rparr>"]
    by (simp add: blank_analysis_state_def)
qed

subsection \<open>Sending a chat message\<close>

text \<open>
  A send that nothing interrupts leaves the message list as it was when the \<open>try\<close> block
  throws, and appends the user's message and the assistant's when it does not.
\<close>

lemma uninterrupted_send:
  assumes "textToSend messageText st \<noteq> []"
  shows "messages (handleSend domain messageText Rejected st) = messages st"
    and "messages (handleSend domain messageText Not_ok st) = messages st"
    and "messages (handleSend domain messageText Bad_json st) = messages st"
    and "messages (handleSend domain messageText (Json Truthy_non_string) st) = messages st"
    and "messages (handleSend domain messageText (Json (Text r)) st) =
           messages st @ [\<lparr>role = User, content = textToSend messageText st\<rparr>,
                          \<lparr>role = Assistant, content = cleanResponseFormatting r\<rparr>]"
    and "messages (handleSend domain messageText (Json Falsy) st) =
           messages st @ [\<lparr>role = User, content = textToSend messageText st\<rparr>,
                          \<lparr>role = Assistant, content = []\<rparr>]"
  using assms by (simp_all add: handleSend_def handleSend_begin_def handleSend_settle_def Let_def)

text \<open>
  C9. The removal is by position, not by message. After the greeting, the badge
  "Key Skills" is clicked and then, its request still pending, the badge "Senior Role".
  When the first request comes back not ok, the message list holds the greeting and the
  question of the failed send: the message removed is the second question, whose request
  is still pending. When that request is answered, the answer stands under the first
  question.
\<close>

theorem overlapping_send_keeps_failed_message:
  "messages (handleSend_settle Not_ok
              (handleQuickQuestion ''Tech'' (snd (initialSuggestedQuestions ! 1))
                (handleQuickQuestion ''Tech'' (snd (initialSuggestedQuestions ! 0))
                  greeted_chat))) =
     [\<lparr>role = Assistant, content = ''Hello!''\<rparr>,
      \<lparr>role = User,
       content = ''What are the key skills I should focus on to advance my career?''\<rparr>]
   \<and> messages (handleSend_settle (Json (Text ''Ask for feedback.''))
                (handleSend_settle Not_ok
                  (handleQuickQuestion ''Tech'' (snd (initialSuggestedQuestions ! 1))
                    (handleQuickQuestion ''Tech'' (snd (initialSuggestedQuestions ! 0))
                      greeted_chat)))) =
     [\<lparr>role = Assistant, content = ''Hello!''\<rparr>,
      \<lparr>role = User,
       content = ''What are the key skills I should focus on to advance my career?''\<rparr>,
      \<lparr>role = Assistant, content = ''Ask for feedback.''\<rparr>]"
proof -
  have clean: "cleanResponseFormatting ''Ask for feedback.'' = ''Ask for feedback.''"
    by code_simp
  show ?thesis
    by (simp add: handleQuickQuestion_def handleSend_begin_def handleSend_settle_def
        textToSend_def initialSuggestedQuestions_def greeted_chat_def Let_def clean)
qed

subsection \<open>The company name of a cover-letter request\<close>

text \<open>
  C10. Whenever \<open>handleGenerate\<close> of the cover-letter view sends a request (the job
  description is not blank), the request carries "Hiring Team" as company name if the
  company-name input is empty or white space only, and the trimmed input otherwise.
\<close>

theorem company_name_default:
  assumes "\<not> list_all is_space (cl_jobRequirement st)"
  shows "cl_requests (handleGenerate_cover reply st) =
           cl_requests st @
             [\<lparr>job_requirement = cl_jobRequirement st,
               company_name = (if list_all is_space (companyName st) then ''Hiring Team''
                               else trim (companyName st))\<rparr>]"
proof -
  have sent: "trim (cl_jobRequirement st) \<noteq> []"
    using assms by (simp add: trim_empty_iff)
  have req: "cl_requests (cover_letter_failed x) = cl_requests x" for x
    by (simp add: cover_letter_failed_def)
  show ?thesis
    using sent
    by (simp add: handleGenerate_cover_def Let_def trim_empty_iff req
        split: fetch_result.split option.split)
qed

theorem company_name_default_witness:
  "\<not> list_all is_space (cl_jobRequirement unnamed_company)
   \<and> \<not> list_all is_space (cl_jobRequirement named_company)
   \<and> cl_requests (handleGenerate_cover Rejected unnamed_company) =
       [\<lparr>job_requirement = ''Nurse'', company_name = ''Hiring Team''\<rparr>]
   \<and> cl_requests (handleGenerate_cover Rejected named_company) =
       [\<lparr>job_requirement = ''Nurse'', company_name = ''Acme''\<rparr>]"
proof -
  have a: "\<not> list_all is_space (cl_jobRequirement unnamed_company)"
    by (simp add: unnamed_company_def is_space_def)
  have b: "\<not> list_all is_space (cl_jobRequirement named_company)"
    by (simp add: named_company_def is_space_def)
  show ?thesis
    using a b company_name_default[OF a, of Rejected] company_name_default[OF b, of Rejected]
    by (simp add: unnamed_company_def named_company_def trim_def is_space_def)
qed

subsection \<open>The score and its breakdown in the analysis view\<close>

lemma js_times_examples:
  "js_times 10 10 = Finite 100"
  "js_times 8 10 = Finite 80"
  "js_times double_057 10 = Finite (1604407367250739 / 281474976710656)"
  "double_round (57 / 100) = Finite double_057"
  by code_simp+

text \<open>
  C1, as the claim states it, fails: the view shows the score of the payload and never
  compares it with the weighted sum of the breakdown. A result with the breakdown
  100 / 100 / 10, whose weighted sum is 100, and the score 10 is stored and rendered with
  the score 10.
\<close>

theorem score_formula_counterexample:
  "render_analysis
     (handleAnalyze (Json \<lparr>results = Some [mismatched_result]\<rparr>) nurse_analysis_state) =
     Inr (Some \<lparr>badge_variant = ''secondary'', badge_label = ''Low Match'',
                shown_score = Some 10,
                score_class = ''text-red-600 dark:text-red-400'',
                breakdown =
                  [\<lparr>row_label = ''Keyword Match (60%)'', row_value = 100,
                    row_bar = Finite 100\<rparr>,
                   \<lparr>row_label = ''Content Match (30%)'', row_value = 100,
                    row_bar = Finite 100\<rparr>,
                   \<lparr>row_label = ''Density Bonus (10%)'', row_value = 10,
                    row_bar = Finite 100\<rparr>],
                matching_count = 1, missing_count = 0\<rparr>)
   \<and> score_breakdown mismatched_result = Some full_breakdown
   \<and> spec_weighted_score full_breakdown = 100
   \<and> score mismatched_result \<noteq> Some (of_int (spec_weighted_score full_breakdown))"
  by (simp add: handleAnalyze_def render_analysis_def mismatched_result_def
      nurse_analysis_state_def full_breakdown_def spec_weighted_score_def trim_def
      is_space_def breakdown_rows_def keyword_count_def getScoreColor_def Let_def
      js_times_examples)

text \<open>
  C1, amended. For every stored result that the view can render and that has a score
  breakdown, the view shows the score and the three components as the payload gives them,
  under the labels "Keyword Match (60%)", "Content Match (30%)" and "Density Bonus (10%)";
  the first two progress bars are given the component itself and the bar of the density
  bonus is given the double-precision product of the bonus and 10.
\<close>

theorem breakdown_shown_as_received:
  assumes "analysisResult st = Some r" and "ats_status r = Some a"
    and "keyword_analysis r = Some ka" and "score_breakdown r = Some b"
  shows "\<exists>v. render_analysis st = Inr (Some v)
           \<and> shown_score v = score r
           \<and> breakdown v =
               [\<lparr>row_label = ''Keyword Match (60%)'', row_value = skill_match b,
                 row_bar = Finite (skill_match b)\<rparr>,
                \<lparr>row_label = ''Content Match (30%)'', row_value = semantic_similarity b,
                 row_bar = Finite (semantic_similarity b)\<rparr>,
                \<lparr>row_label = ''Density Bonus (10%)'', row_value = keyword_density_bonus b,
                 row_bar = js_times (keyword_density_bonus b) 10\<rparr>]"
  using assms by (simp add: render_analysis_def breakdown_rows_def)

theorem breakdown_shown_witness:
  "analysisResult fair_state = Some fair_result
   \<and> ats_status fair_result = Some \<lparr>level = ''high'', label = ''Good Match''\<rparr>
   \<and> keyword_analysis fair_result =
       Some \<lparr>matching_keywords = Some [''sql''], missing_keywords = Some []\<rparr>
   \<and> score_breakdown fair_result = Some fair_breakdown
   \<and> (\<exists>v. render_analysis fair_state = Inr (Some v)
          \<and> shown_score v = Some 77
          \<and> breakdown v =
              [\<lparr>row_label = ''Keyword Match (60%)'', row_value = 80, row_bar = Finite 80\<rparr>,
               \<lparr>row_label = ''Content Match (30%)'', row_value = 70, row_bar = Finite 70\<rparr>,
               \<lparr>row_label = ''Density Bonus (10%)'', row_value = 8, row_bar = Finite 80\<rparr>])
   \<and> analysisResult fractional_state = Some fractional_result
   \<and> score_breakdown fractional_result = Some fractional_breakdown
   \<and> (\<exists>v. render_analysis fractional_state = Inr (Some v)
          \<and> row_bar (breakdown v ! 2) = Finite (1604407367250739 / 281474976710656))
   \<and> (1604407367250739 / 281474976710656 :: rat) < 57 / 10"
proof -
  have h1: "analysisResult fair_state = Some fair_result"
    by (simp add: fair_state_def)
  have h2: "ats_status fair_result = Some \<lparr>level = ''high'', label = ''Good Match''\<rparr>"
    by (simp add: fair_result_def)
  have h3: "keyword_analysis fair_result =
             Some \<lparr>matching_keywords = Some [''sql''], missing_keywords = Some []\<rparr>"
    by (simp add: fair_result_def)
  have h4: "score_breakdown fair_result = Some fair_breakdown"
    by (simp add: fair_result_def)
  have vals: "score fair_result = Some 77" "skill_match fair_breakdown = 80"
    "semantic_similarity fair_breakdown = 70" "keyword_density_bonus fair_breakdown = 8"
    by (simp_all add: fair_result_def fair_breakdown_def)
  have g1: "analysisResult fractional_state = Some fractional_result"
    by (simp add: fractional_state_def)
  have g2: "ats_status fractional_result = Some \<lparr>level = ''high'', label = ''Good Match''\<rparr>"
    by (simp add: fractional_result_def)
  have g3: "keyword_analysis fractional_result =
             Some \<lparr>matching_keywords = Some [''sql''], missing_keywords = Some []\<rparr>"
    by (simp add: fractional_result_def)
  have g4: "score_breakdown fractional_result = Some fractional_breakdown"
    by (simp add: fractional_result_def)
  have bonus: "keyword_density_bonus fractional_breakdown = double_057"
    by (simp add: fractional_breakdown_def)
  have fair: "\<exists>v. render_analysis fair_state = Inr (Some v)
          \<and> shown_score v = Some 77
          \<and> breakdown v =
              [\<lparr>row_label = ''Keyword Match (60%)'', row_value = 80, row_bar = Finite 80\<rparr>,
               \<lparr>row_label = ''Content Match (30%)'', row_value = 70, row_bar = Finite 70\<rparr>,
               \<lparr>row_label = ''Density Bonus (10%)'', row_value = 8, row_bar = Finite 80\<rparr>]"
    using breakdown_shown_as_received[OF h1 h2 h3 h4]
    by (simp add: vals js_times_examples)
  have fractional: "\<exists>v. render_analysis fractional_state = Inr (Some v)
          \<and> row_bar (breakdown v ! 2) = Finite (1604407367250739 / 281474976710656)"
    using breakdown_shown_as_received[OF g1 g2 g3 g4]
    by (auto simp: bonus js_times_examples)
  have less: "(1604407367250739 / 281474976710656 :: rat) < 57 / 10"
    by simp
  show ?thesis
    using h1 h2 h3 h4 g1 g4 fair fractional less by (intro conjI)
qed

subsection \<open>Leading numbers\<close>

text \<open>
  C3. The step that removes list markers removes any run of digits, \<open>-\<close> and \<open>+\<close> at the
  start of a line, whether or not a dot or white space follows: "3D modeling" loses its
  "3" in all three normalizers, and a salary range loses its lower bound.
\<close>

theorem leading_number_removed:
  "cleanText_salary ''3D modeling'' = ''D modeling''
   \<and> cleanText_interview ''3D modeling'' = ''D modeling''
   \<and> cleanResponseFormatting ''3D modeling'' = ''D modeling''
   \<and> cleanText_salary ''80000 - 100000 USD'' = ''- 100000 USD''"
  by code_simp

subsection \<open>Payloads with missing keys\<close>

text \<open>
  C6, as the claim states it, fails: \<open>handleAnalyze\<close> checks no key of the result. A result
  without \<open>score_breakdown\<close> is stored, announced by the toast "Analysis complete" and
  rendered without the breakdown section; a result without \<open>keyword_analysis\<close> is stored
  and announced just the same.
\<close>

theorem missing_key_accepted_counterexample:
  "handleAnalyze (Json \<lparr>results = Some [no_breakdown_result]\<rparr>) nurse_analysis_state =
     \<lparr>jobRequirement = ''Nurse'', isAnalyzing = False,
      analysisResult = Some no_breakdown_result,
      toasts = [\<lparr>title = ''Analysis complete'', description = Ats_score (Some 72),
                 destructive = False\<rparr>],
      requests = [''Nurse'']\<rparr>
   \<and> render_analysis
       (handleAnalyze (Json \<lparr>results = Some [no_breakdown_result]\<rparr>) nurse_analysis_state) =
     Inr (Some \<lparr>badge_variant = ''secondary'', badge_label = ''Good Match'',
                shown_score = Some 72,
                score_class = ''text-yellow-600 dark:text-yellow-400'',
                breakdown = [], matching_count = 1, missing_count = 0\<rparr>)
   \<and> handleAnalyze (Json \<lparr>results = Some [no_keywords_result]\<rparr>) nurse_analysis_state =
     \<lparr>jobRequirement = ''Nurse'', isAnalyzing = False,
      analysisResult = Some no_keywords_result,
      toasts = [\<lparr>title = ''Analysis complete'', description = Ats_score (Some 72),
                 destructive = False\<rparr>],
      requests = [''Nurse'']\<rparr>"
  by (simp add: handleAnalyze_def render_analysis_def no_breakdown_result_def
      no_keywords_result_def nurse_analysis_state_def trim_def is_space_def
      breakdown_rows_def keyword_count_def getScoreColor_def Let_def)

text \<open>
  C6, amended. With a job description that is not blank: the interview view rejects a
  payload without \<open>technical_questions\<close> or without \<open>behavioral_questions\<close> (failure toast,
  \<open>prepData\<close> left empty) and, when both are there, fills an absent \<open>key_talking_points\<close>
  or \<open>questions_to_ask\<close> with the empty list. The analysis view rejects, with the failure
  toast, a payload without \<open>results\<close>, leaving the stored result as it was, and a payload
  whose \<open>results\<close> is empty, leaving no stored result. It does not reject a first result
  for lacking \<open>score_breakdown\<close>: a first result that has \<open>ats_status\<close> and
  \<open>keyword_analysis\<close> is stored as received, announced by the toast "Analysis complete"
  and rendered, without the breakdown section when it has no \<open>score_breakdown\<close>.
\<close>

theorem payload_validation:
  assumes "\<not> list_all is_space (prep_jobRequirement ps)"
    and "\<not> list_all is_space (jobRequirement st)"
  shows "(technical_questions d = None \<or> behavioral_questions d = None \<longrightarrow>
            handleGenerate_interview (Json d) ps =
              prep_failed (ps\<lparr>prep_isGenerating := True, prepData := None,
                               prep_requests := prep_requests ps @ [prep_jobRequirement ps]\<rparr>)
            \<and> prepData (handleGenerate_interview (Json d) ps) = None)
       \<and> (technical_questions d = Some tq \<and> behavioral_questions d = Some bq \<longrightarrow>
            prepData (handleGenerate_interview (Json d) ps) =
              Some \<lparr>technical_questions = Some (map cleanText_interview tq),
                    behavioral_questions = Some (map cleanText_interview bq),
                    key_talking_points =
                      Some (case key_talking_points d of
                              Some kp \<Rightarrow> map cleanText_interview kp | None \<Rightarrow> []),
                    questions_to_ask =
                      Some (case questions_to_ask d of
                              Some qa \<Rightarrow> map cleanText_interview qa | None \<Rightarrow> [])\<rparr>)
       \<and> (results a = None \<longrightarrow>
            handleAnalyze (Json a) st =
              analysis_failed (st\<lparr>isAnalyzing := True,
                                   requests := requests st @ [jobRequirement st]\<rparr>)
            \<and> analysisResult (handleAnalyze (Json a) st) = analysisResult st)
       \<and> (results a = Some [] \<longrightarrow>
            handleAnalyze (Json a) st =
              analysis_failed (st\<lparr>isAnalyzing := True,
                                   requests := requests st @ [jobRequirement st],
                                   analysisResult := None\<rparr>)
            \<and> analysisResult (handleAnalyze (Json a) st) = None)
       \<and> (results a = Some (r # rs) \<and> ats_status r = Some s \<and> keyword_analysis r = Some ka \<longrightarrow>
            analysisResult (handleAnalyze (Json a) st) = Some r
            \<and> toasts (handleAnalyze (Json a) st) =
                toasts st @ [\<lparr>title = ''Analysis complete'', description = Ats_score (score r),
                              destructive = False\<rparr>]
            \<and> (\<exists>v. render_analysis (handleAnalyze (Json a) st) = Inr (Some v)
                   \<and> breakdown v = breakdown_rows (score_breakdown r)
                   \<and> (score_breakdown r = None \<longrightarrow> breakdown v = [])))"
proof -
  have p: "trim (prep_jobRequirement ps) \<noteq> []" and q: "trim (jobRequirement st) \<noteq> []"
    using assms by (simp_all add: trim_empty_iff)
  have 1: "technical_questions d = None \<or> behavioral_questions d = None \<longrightarrow>
            handleGenerate_interview (Json d) ps =
              prep_failed (ps\<lparr>prep_isGenerating := True, prepData := None,
                               prep_requests := prep_requests ps @ [prep_jobRequirement ps]\<rparr>)
            \<and> prepData (handleGenerate_interview (Json d) ps) = None"
    using p
    by (auto simp: handleGenerate_interview_def Let_def prep_failed_def split: option.split)
  have 2: "technical_questions d = Some tq \<and> behavioral_questions d = Some bq \<longrightarrow>
            prepData (handleGenerate_interview (Json d) ps) =
              Some \<lparr>technical_questions = Some (map cleanText_interview tq),
                    behavioral_questions = Some (map cleanText_interview bq),
                    key_talking_points =
                      Some (case key_talking_points d of
                              Some kp \<Rightarrow> map cleanText_interview kp | None \<Rightarrow> []),
                    questions_to_ask =
                      Some (case questions_to_ask d of
                              Some qa \<Rightarrow> map cleanText_interview qa | None \<Rightarrow> [])\<rparr>"
    using p by (simp add: handleGenerate_interview_def Let_def)
  have 3: "results a = None \<longrightarrow>
            handleAnalyze (Json a) st =
              analysis_failed (st\<lparr>isAnalyzing := True,
                                   requests := requests st @ [jobRequirement st]\<rparr>)
            \<and> analysisResult (handleAnalyze (Json a) st) = analysisResult st"
    using q by (simp add: handleAnalyze_def Let_def analysis_failed_def)
  have 4: "results a = Some [] \<longrightarrow>
            handleAnalyze (Json a) st =
              analysis_failed (st\<lparr>isAnalyzing := True,
                                   requests := requests st @ [jobRequirement st],
                                   analysisResult := None\<rparr>)
            \<and> analysisResult (handleAnalyze (Json a) st) = None"
    using q by (simp add: handleAnalyze_def Let_def analysis_failed_def)
  have 5: "results a = Some (r # rs) \<and> ats_status r = Some s \<and> keyword_analysis r = Some ka \<longrightarrow>
            analysisResult (handleAnalyze (Json a) st) = Some r
            \<and> toasts (handleAnalyze (Json a) st) =
                toasts st @ [\<lparr>title = ''Analysis complete'', description = Ats_score (score r),
                              destructive = False\<rparr>]
            \<and> (\<exists>v. render_analysis (handleAnalyze (Json a) st) = Inr (Some v)
                   \<and> breakdown v = breakdown_rows (score_breakdown r)
                   \<and> (score_breakdown r = None \<longrightarrow> breakdown v = []))"
    using q by (simp add: handleAnalyze_def Let_def render_analysis_def breakdown_rows_def)
  show ?thesis
    by (rule conjI[OF 1 conjI[OF 2 conjI[OF 3 conjI[OF 4 5]]]])
qed

theorem payload_validation_witness:
  "\<not> list_all is_space (prep_jobRequirement nurse_prep_state)
   \<and> \<not> list_all is_space (jobRequirement fair_state)
   \<and> technical_questions no_technical_prep = None
   \<and> prepData (handleGenerate_interview (Json no_technical_prep) nurse_prep_state) = None
   \<and> prepData (handleGenerate_interview (Json questions_only_prep) nurse_prep_state) =
       Some \<lparr>technical_questions = Some [''Why nursing?''],
             behavioral_questions = Some [''Tell me about a conflict''],
             key_talking_points = Some [], questions_to_ask = Some []\<rparr>
   \<and> analysisResult (handleAnalyze (Json \<lparr>results = None\<rparr>) fair_state) = Some fair_result
   \<and> analysisResult (handleAnalyze (Json \<lparr>results = Some []\<rparr>) fair_state) = None
   \<and> analysisResult (handleAnalyze (Json \<lparr>results = Some [no_breakdown_result]\<rparr>) fair_state) =
       Some no_breakdown_result
   \<and> (\<exists>v. render_analysis
            (handleAnalyze (Json \<lparr>results = Some [no_breakdown_result]\<rparr>) fair_state) =
            Inr (Some v) \<and> breakdown v = [])"
proof -
  have p: "\<not> list_all is_space (prep_jobRequirement nurse_prep_state)"
    by (simp add: nurse_prep_state_def is_space_def)
  have q: "\<not> list_all is_space (jobRequirement fair_state)"
    by (simp add: fair_state_def is_space_def)
  have c1: "cleanText_interview ''1. Why **nursing**?'' = ''Why nursing?''"
    by code_simp
  have c2: "cleanText_interview ''- Tell me about a conflict'' = ''Tell me about a conflict''"
    by code_simp
  have old: "analysisResult fair_state = Some fair_result"
    by (simp add: fair_state_def)
  have keys: "score_breakdown no_breakdown_result = None"
    "ats_status no_breakdown_result = Some \<lparr>level = ''medium'', label = ''Good Match''\<rparr>"
    "keyword_analysis no_breakdown_result =
       Some \<lparr>matching_keywords = Some [''sql''], missing_keywords = None\<rparr>"
    by (simp_all add: no_breakdown_result_def)
  note valid = payload_validation[OF p q,
      where a = "\<lparr>results = Some [no_breakdown_result]\<rparr>"
        and r = no_breakdown_result and rs = "[]"
        and s = "\<lparr>level = ''medium'', label = ''Good Match''\<rparr>"
        and ka = "\<lparr>matching_keywords = Some [''sql''], missing_keywords = None\<rparr>"
        and d = no_technical_prep and tq = "[]" and bq = "[]"]
  have pre: "results \<lparr>results = Some [no_breakdown_result]\<rparr> = Some [no_breakdown_result]
      \<and> ats_status no_breakdown_result = Some \<lparr>level = ''medium'', label = ''Good Match''\<rparr>
      \<and> keyword_analysis no_breakdown_result =
           Some \<lparr>matching_keywords = Some [''sql''], missing_keywords = None\<rparr>"
    using keys by simp
  note stored = valid[THEN conjunct2, THEN conjunct2, THEN conjunct2, THEN conjunct2,
      THEN mp, OF pre]
  have "technical_questions no_technical_prep = None"
    by (simp add: no_technical_prep_def)
  moreover have "prepData (handleGenerate_interview (Json no_technical_prep) nurse_prep_state) = None"
    using payload_validation[OF p q, where d = no_technical_prep]
    by (simp add: no_technical_prep_def prep_failed_def)
  moreover have "prepData (handleGenerate_interview (Json questions_only_prep) nurse_prep_state) =
       Some \<lparr>technical_questions = Some [''Why nursing?''],
             behavioral_questions = Some [''Tell me about a conflict''],
             key_talking_points = Some [], questions_to_ask = Some []\<rparr>"
    using payload_validation[OF p q, where d = questions_only_prep
        and tq = "[''1. Why **nursing**?'']" and bq = "[''- Tell me about a conflict'']"]
    by (simp add: questions_only_prep_def c1 c2)
  moreover have "analysisResult (handleAnalyze (Json \<lparr>results = None\<rparr>) fair_state) =
       Some fair_result"
    using payload_validation[OF p q, where a = "\<lparr>results = None\<rparr>"] old
    by (simp add: analysis_failed_def)
  moreover have "analysisResult (handleAnalyze (Json \<lparr>results = Some []\<rparr>) fair_state) = None"
    using payload_validation[OF p q, where a = "\<lparr>results = Some []\<rparr>"]
    by (simp add: analysis_failed_def)
  moreover have "analysisResult
       (handleAnalyze (Json \<lparr>results = Some [no_breakdown_result]\<rparr>) fair_state) =
       Some no_breakdown_result"
    using stored by (rule conjunct1)
  moreover have "\<exists>v. render_analysis
            (handleAnalyze (Json \<lparr>results = Some [no_breakdown_result]\<rparr>) fair_state) =
            Inr (Some v) \<and> breakdown v = []"
    using stored[THEN conjunct2, THEN conjunct2] keys(1) by blast
  ultimately show ?thesis using p q by (intro conjI)
qed

text \<open>
  The two keyword cards read \<open>matching_keywords\<close> of \<open>keyword_analysis\<close> outside the guard
  that the statistics block has: rendering the stored result without \<open>keyword_analysis\<close>
  throws.
\<close>

lemma keyword_cards_unguarded:
  "render_analysis
     (handleAnalyze (Json \<lparr>results = Some [no_keywords_result]\<rparr>) nurse_analysis_state) =
     Inl TypeError"
  by (simp add: handleAnalyze_def render_analysis_def no_keywords_result_def
      nurse_analysis_state_def trim_def is_space_def Let_def)

subsection \<open>Replacement: what goes and what stays\<close>

lemma replace_go_subset:
  "set (replace_go m rep k bol s) \<subseteq> set s \<union> set rep"
proof (induction s arbitrary: k bol)
  case Nil
  then show ?case by auto
next
  case (Cons c cs)
  show ?case
  proof (cases k)
    case 0
    then show ?thesis
      using Cons[of 0 "is_line_terminator c"] Cons[of _ "is_line_terminator c"]
      by (auto split: option.split nat.split)
  next
    case (Suc j)
    then show ?thesis using Cons[of j "is_line_terminator c"] by auto
  qed
qed

lemma replace_go_removes:
  assumes "x \<notin> set rep" and "\<And>bol t. \<exists>n. m bol (x # t) = Some (Suc n)"
  shows "x \<notin> set (replace_go m rep k bol s)"
proof (induction s arbitrary: k bol)
  case Nil
  then show ?case using assms(1) by simp
next
  case (Cons c cs)
  show ?case
  proof (cases k)
    case 0
    show ?thesis
    proof (cases "c = x")
      case True
      obtain n where "m bol (x # cs) = Some (Suc n)" using assms(2) by blast
      then show ?thesis using True 0 Cons assms(1) by simp
    next
      case False
      then show ?thesis using 0 Cons assms(1) by (simp split: option.split nat.split)
    qed
  next
    case (Suc j)
    then show ?thesis using Cons by simp
  qed
qed

lemma replace_go_never_matches:
  "never_matches m bol s \<Longrightarrow> replace_go m rep 0 bol s = s"
  by (induction s arbitrary: bol) auto

lemma set_trim: "set (trim s) \<subseteq> set s"
proof -
  have "set (trim s) \<subseteq> set (dropWhile is_space s)"
    unfolding trim_def using set_dropWhileD[of _ is_space "rev (dropWhile is_space s)"] by auto
  also have "\<dots> \<subseteq> set s" using set_dropWhileD[of _ is_space s] by auto
  finally show ?thesis .
qed

lemma trim_id:
  assumes "s \<noteq> []" and "\<not> is_space (hd s)" and "\<not> is_space (last s)"
  shows "trim s = s"
proof -
  have "dropWhile is_space s = s" using assms by (simp add: dropWhile_eq_self_iff)
  moreover have "dropWhile is_space (rev s) = rev s"
    using assms by (simp add: dropWhile_eq_self_iff hd_rev)
  ultimately show ?thesis by (simp add: trim_def)
qed

lemma trim_ends:
  assumes "trim s \<noteq> []"
  shows "\<not> is_space (hd (trim s))" and "\<not> is_space (last (trim s))"
proof -
  let ?y = "dropWhile is_space s"
  let ?z = "dropWhile is_space (rev ?y)"
  have z: "?z \<noteq> []" using assms by (simp add: trim_def del: dropWhile_eq_Nil_conv)
  have y: "?y \<noteq> []"
    using z by (cases "dropWhile is_space s") (simp_all del: dropWhile_eq_Nil_conv)
  have "\<not> is_space (hd ?z)" using z by (rule hd_dropWhile)
  then show "\<not> is_space (last (trim s))" using z by (simp add: trim_def last_rev del: dropWhile_eq_Nil_conv)
  have ny: "\<not> is_space (hd ?y)" using y by (rule hd_dropWhile)
  have "rev ?y = takeWhile is_space (rev ?y) @ ?z" by simp
  then have "?y = rev ?z @ rev (takeWhile is_space (rev ?y))"
    by (metis rev_append rev_rev_ident)
  then have "hd ?y = hd (rev ?z)" using z by (metis hd_append2 rev_is_Nil_conv)
  then show "\<not> is_space (hd (trim s))" using ny by (simp add: trim_def)
qed

lemma trim_idem: "trim (trim s) = trim s"
proof (cases "trim s = []")
  case True
  have "trim [] = []" by (simp add: trim_def)
  with True show ?thesis by simp
next
  case False
  then show ?thesis using trim_ends[OF False] by (intro trim_id)
qed

lemma rx_emphasis_star: "\<exists>n. rx_emphasis bol (CHR ''*'' # t) = Some (Suc n)"
  by (simp add: rx_emphasis_def split: list.split)

lemma rx_emphasis_underscore: "\<exists>n. rx_emphasis bol (CHR ''_'' # t) = Some (Suc n)"
  by (simp add: rx_emphasis_def split: list.split)

lemma rx_stars_star: "\<exists>n. rx_stars bol (CHR ''*'' # t) = Some (Suc n)"
  by (simp add: rx_stars_def split: list.split)

lemma replace_all_deletes: "x \<notin> set s \<Longrightarrow> x \<notin> set (replace_all m [] s)"
  using replace_go_subset[of m "[]" 0 True s] by (auto simp: replace_all_def)

lemma replace_all_keeps_out:
  "x \<notin> set s \<Longrightarrow> x \<notin> set rep \<Longrightarrow> x \<notin> set (replace_all m rep s)"
  using replace_go_subset[of m rep 0 True s] by (auto simp: replace_all_def)

lemma trim_keeps_out: "x \<notin> set s \<Longrightarrow> x \<notin> set (trim s)"
  using set_trim[of s] by auto

lemma no_emphasis_left:
  "CHR ''*'' \<notin> set (replace_all rx_emphasis [] s)"
  "CHR ''_'' \<notin> set (replace_all rx_emphasis [] s)"
  unfolding replace_all_def
  by (rule replace_go_removes; simp add: rx_emphasis_star rx_emphasis_underscore)+

lemma no_star_left: "CHR ''*'' \<notin> set (replace_all rx_stars [] s)"
  unfolding replace_all_def
  by (rule replace_go_removes; simp add: rx_stars_star)

lemma cleanText_salary_no_emphasis:
  "CHR ''*'' \<notin> set (cleanText_salary s)" "CHR ''_'' \<notin> set (cleanText_salary s)"
  by (simp_all add: cleanText_salary_def trim_keeps_out replace_all_deletes no_emphasis_left)

lemma cleanText_interview_no_emphasis:
  "CHR ''*'' \<notin> set (cleanText_interview s)" "CHR ''_'' \<notin> set (cleanText_interview s)"
  by (simp_all add: cleanText_interview_def trim_keeps_out replace_all_deletes no_emphasis_left)

lemma cleanResponseFormatting_no_star:
  "CHR ''*'' \<notin> set (cleanResponseFormatting s)"
  by (simp add: cleanResponseFormatting_def trim_keeps_out replace_all_deletes
      replace_all_keeps_out no_star_left)

lemma replace_go_keeps:
  assumes consumed: "\<And>bol t n. m bol t = Some n \<Longrightarrow> list_all D (take n t)"
    and rep: "list_all D rep"
  shows "list_all D (take k s) \<Longrightarrow>
         filter (\<lambda>c. \<not> D c) (replace_go m rep k bol s) = filter (\<lambda>c. \<not> D c) s"
proof (induction s arbitrary: k bol)
  case Nil
  then show ?case using rep by (simp add: list_all_iff)
next
  case (Cons c cs)
  show ?case
  proof (cases k)
    case (Suc j)
    then show ?thesis using Cons.prems Cons.IH[of j] by simp
  next
    case 0
    show ?thesis
    proof (cases "m bol (c # cs)")
      case None
      then show ?thesis using 0 Cons.IH[of 0] by simp
    next
      case (Some n)
      show ?thesis
      proof (cases n)
        case 0
        then show ?thesis using \<open>k = 0\<close> Some Cons.IH[of 0] rep by (simp add: list_all_iff)
      next
        case (Suc j)
        have "list_all D (take (Suc j) (c # cs))" using consumed[OF Some] Suc by simp
        then have "D c" "list_all D (take j cs)" by simp_all
        then show ?thesis using \<open>k = 0\<close> Some Suc Cons.IH[of j] rep by (simp add: list_all_iff)
      qed
    qed
  qed
qed

lemma replace_all_keeps:
  assumes "\<And>bol t n. m bol t = Some n \<Longrightarrow> list_all D (take n t)" and "list_all D rep"
  shows "filter (\<lambda>c. \<not> D c) (replace_all m rep s) = filter (\<lambda>c. \<not> D c) s"
  unfolding replace_all_def using assms by (intro replace_go_keeps) simp_all

lemma trim_keeps:
  assumes "\<And>c. is_space c \<Longrightarrow> D c"
  shows "filter (\<lambda>c. \<not> D c) (trim s) = filter (\<lambda>c. \<not> D c) s"
proof -
  have drop: "filter (\<lambda>c. \<not> D c) (dropWhile is_space t) = filter (\<lambda>c. \<not> D c) t" for t
    using assms by (induction t) auto
  have "filter (\<lambda>c. \<not> D c) (trim s) =
        rev (filter (\<lambda>c. \<not> D c) (dropWhile is_space (rev (dropWhile is_space s))))"
    by (simp add: trim_def rev_filter)
  also have "\<dots> = rev (filter (\<lambda>c. \<not> D c) (rev (dropWhile is_space s)))"
    by (simp only: drop)
  also have "\<dots> = filter (\<lambda>c. \<not> D c) (dropWhile is_space s)"
    by (simp add: rev_filter)
  finally show ?thesis by (simp only: drop)
qed

lemma take_two_runs:
  "take (length (takeWhile P t) + length (takeWhile Q (dropWhile P t))) t =
   takeWhile P t @ takeWhile Q (dropWhile P t)"
proof -
  have "t = takeWhile P t @ takeWhile Q (dropWhile P t) @ dropWhile Q (dropWhile P t)"
    by simp
  then have "take (length (takeWhile P t @ takeWhile Q (dropWhile P t))) t =
             take (length (takeWhile P t @ takeWhile Q (dropWhile P t)))
               ((takeWhile P t @ takeWhile Q (dropWhile P t)) @ dropWhile Q (dropWhile P t))"
    by simp
  then show ?thesis by (simp del: takeWhile_dropWhile_id)
qed

lemma list_all_takeWhile: "list_all P (takeWhile P t)"
  by (induction t) auto

lemma list_all_mono: "list_all P xs \<Longrightarrow> (\<And>x. P x \<Longrightarrow> Q x) \<Longrightarrow> list_all Q xs"
  by (auto simp: list_all_iff)

lemma rx_stars_consumes:
  "rx_stars bol t = Some n \<Longrightarrow> list_all (\<lambda>c. c = CHR ''*'') (take n t)"
  by (auto simp: rx_stars_def split: list.splits if_splits)

lemma rx_emphasis_consumes:
  "rx_emphasis bol t = Some n \<Longrightarrow> list_all (\<lambda>c. c = CHR ''*'' \<or> c = CHR ''_'') (take n t)"
  by (auto simp: rx_emphasis_def split: list.splits if_splits)

lemma rx_heading_consumes:
  assumes "rx_heading bol t = Some n"
  shows "list_all (\<lambda>c. c = CHR ''#'' \<or> is_space c) (take n t)"
proof -
  have n: "n = length (takeWhile (\<lambda>c. c = CHR ''#'') t)
             + length (takeWhile is_space (dropWhile (\<lambda>c. c = CHR ''#'') t))"
    using assms by (simp add: rx_heading_def Let_def split: if_splits)
  show ?thesis
    unfolding n take_two_runs
    using list_all_takeWhile[of "\<lambda>c. c = CHR ''#''" t]
      list_all_takeWhile[of is_space "dropWhile (\<lambda>c. c = CHR ''#'') t"]
    by (auto simp: list_all_iff)
qed

lemma rx_blockquote_consumes:
  assumes "rx_blockquote bol t = Some n"
  shows "list_all (\<lambda>c. c = CHR ''>'' \<or> is_space c) (take n t)"
proof (cases t)
  case Nil
  then show ?thesis by simp
next
  case (Cons c cs)
  then have c: "c = CHR ''>''" and n: "n = Suc (length (takeWhile is_space cs))"
    using assms by (simp_all add: rx_blockquote_def split: if_splits)
  have "take (length (takeWhile is_space cs)) cs = takeWhile is_space cs"
    by (simp add: takeWhile_eq_take[symmetric])
  then show ?thesis
    using Cons c n list_all_takeWhile[of is_space cs] by (simp add: list_all_iff)
qed

lemma rx_list_marker_consumes:
  assumes "rx_list_marker bol t = Some n"
  shows "list_all (\<lambda>c. is_space c \<or> is_marker_char c \<or> c = CHR ''.'') (take n t)"
proof -
  define ws where "ws = takeWhile is_space t"
  define r1 where "r1 = dropWhile is_space t"
  define ds where "ds = takeWhile is_marker_char r1"
  define r2 where "r2 = dropWhile is_marker_char r1"
  define dot where "dot = takeWhile (\<lambda>c. c = CHR ''.'') (take (Suc 0) r2)"
  define r3 where "r3 = drop (length dot) r2"
  define ws2 where "ws2 = takeWhile is_space r3"
  have n: "n = length ws + length ds + length dot + length ws2"
    using assms
    by (simp add: rx_list_marker_def Let_def ws_def r1_def ds_def r2_def dot_def r3_def ws2_def
        split: if_splits)
  have "length dot \<le> Suc 0"
    unfolding dot_def using length_takeWhile_le[of _ "take (Suc 0) r2"] by (simp add: le_trans)
  moreover have "dot = take (length dot) (take (Suc 0) r2)"
    unfolding dot_def by (rule takeWhile_eq_take)
  ultimately have "dot = take (length dot) r2" by (simp add: min_def)
  then have r2: "r2 = dot @ r3" unfolding r3_def by (metis append_take_drop_id)
  have "t = ws @ r1" by (simp add: ws_def r1_def)
  also have "r1 = ds @ r2" by (simp add: ds_def r2_def)
  also have "r2 = dot @ ws2 @ dropWhile is_space r3" using r2 by (simp add: ws2_def)
  finally have t: "t = (ws @ ds @ dot @ ws2) @ dropWhile is_space r3" by simp
  have "take n t = take (length (ws @ ds @ dot @ ws2)) ((ws @ ds @ dot @ ws2) @ dropWhile is_space r3)"
    using t n by simp
  then have "take n t = ws @ ds @ dot @ ws2" by simp
  moreover have "list_all is_space ws" "list_all is_marker_char ds"
    "list_all (\<lambda>c. c = CHR ''.'') dot" "list_all is_space ws2"
    unfolding ws_def ds_def dot_def ws2_def by (rule list_all_takeWhile)+
  ultimately show ?thesis by (auto simp: list_all_iff)
qed

lemma line_breaks_consumes:
  "line_breaks s = (n, l) \<Longrightarrow> list_all (\<lambda>c. c = CHR 0x0A \<or> c = CHR 0x0D) (take l s)"
proof (induction s arbitrary: n l rule: line_breaks.induct)
  case 1
  then show ?case by simp
next
  case (2 c)
  then show ?case by (auto split: if_splits)
next
  case (3 c d cs)
  then show ?case by (auto split: if_splits prod.splits)
qed

lemma rx_newlines3_consumes:
  "rx_newlines3 bol t = Some n \<Longrightarrow> list_all is_space (take n t)"
proof -
  assume "rx_newlines3 bol t = Some n"
  then obtain k where "line_breaks t = (k, n)"
    by (auto simp: rx_newlines3_def split: prod.splits if_splits)
  then have "list_all (\<lambda>c. c = CHR 0x0A \<or> c = CHR 0x0D) (take n t)"
    by (rule line_breaks_consumes)
  then show ?thesis by (rule list_all_mono) (auto simp: is_space_def)
qed

lemma underscores_kept:
  "filter (\<lambda>c. c = CHR ''_'') (cleanResponseFormatting s) = filter (\<lambda>c. c = CHR ''_'') s"
proof -
  let ?D = "\<lambda>c. c \<noteq> CHR ''_''"
  have sp: "is_space c \<Longrightarrow> ?D c" for c by (auto simp: is_space_def)
  have mk: "is_marker_char c \<Longrightarrow> ?D c" for c by (auto simp: is_marker_char_def is_digit_def)
  have 1: "rx_stars bol t = Some n \<Longrightarrow> list_all ?D (take n t)" for bol t n
    by (drule rx_stars_consumes, erule list_all_mono) simp
  have 2: "rx_heading bol t = Some n \<Longrightarrow> list_all ?D (take n t)" for bol t n
    by (drule rx_heading_consumes, erule list_all_mono) (use sp in auto)
  have 3: "rx_list_marker bol t = Some n \<Longrightarrow> list_all ?D (take n t)" for bol t n
    by (drule rx_list_marker_consumes, erule list_all_mono) (use sp mk in auto)
  have 4: "rx_newlines3 bol t = Some n \<Longrightarrow> list_all ?D (take n t)" for bol t n
    by (drule rx_newlines3_consumes, erule list_all_mono) (use sp in auto)
  have "filter (\<lambda>c. \<not> ?D c) (cleanResponseFormatting s) = filter (\<lambda>c. \<not> ?D c) s"
    unfolding cleanResponseFormatting_def
    using replace_all_keeps[of rx_stars ?D "[]", OF 1]
      replace_all_keeps[of rx_heading ?D "[]", OF 2]
      replace_all_keeps[of rx_list_marker ?D "[]", OF 3]
      replace_all_keeps[of rx_newlines3 ?D "[CHR 0x0A, CHR 0x0A]", OF 4]
      trim_keeps[of ?D, OF sp]
    by simp
  then show ?thesis by simp
qed

text \<open>Every other character of the input stays, in its place among the others.\<close>

lemma only_markup_removed:
  "filter (\<lambda>c. \<not> is_markup c) (cleanText_salary s) = filter (\<lambda>c. \<not> is_markup c) s"
  "filter (\<lambda>c. \<not> is_markup c) (cleanText_interview s) = filter (\<lambda>c. \<not> is_markup c) s"
  "filter (\<lambda>c. \<not> is_markup c) (cleanResponseFormatting s) = filter (\<lambda>c. \<not> is_markup c) s"
proof -
  have sp: "is_space c \<Longrightarrow> is_markup c" for c by (simp add: is_markup_def)
  have 0: "rx_emphasis bol t = Some n \<Longrightarrow> list_all is_markup (take n t)" for bol t n
    by (drule rx_emphasis_consumes, erule list_all_mono) (auto simp: is_markup_def)
  have 1: "rx_stars bol t = Some n \<Longrightarrow> list_all is_markup (take n t)" for bol t n
    by (drule rx_stars_consumes, erule list_all_mono) (auto simp: is_markup_def)
  have 2: "rx_heading bol t = Some n \<Longrightarrow> list_all is_markup (take n t)" for bol t n
    by (drule rx_heading_consumes, erule list_all_mono) (auto simp: is_markup_def)
  have 3: "rx_list_marker bol t = Some n \<Longrightarrow> list_all is_markup (take n t)" for bol t n
    by (drule rx_list_marker_consumes, erule list_all_mono) (auto simp: is_markup_def)
  have 4: "rx_newlines3 bol t = Some n \<Longrightarrow> list_all is_markup (take n t)" for bol t n
    by (drule rx_newlines3_consumes, erule list_all_mono) (auto simp: is_markup_def)
  have 5: "rx_blockquote bol t = Some n \<Longrightarrow> list_all is_markup (take n t)" for bol t n
    by (drule rx_blockquote_consumes, erule list_all_mono) (auto simp: is_markup_def)
  have nl: "list_all is_markup [CHR 0x0A, CHR 0x0A]"
    by (simp add: is_markup_def is_space_def)
  note k = replace_all_keeps[of _ is_markup]
  show "filter (\<lambda>c. \<not> is_markup c) (cleanText_salary s) = filter (\<lambda>c. \<not> is_markup c) s"
    unfolding cleanText_salary_def
    using k[of rx_emphasis "[]", OF 0] k[of rx_heading "[]", OF 2] k[of rx_list_marker "[]", OF 3]
      k[of rx_blockquote "[]", OF 5] trim_keeps[of is_markup, OF sp]
    by simp
  show "filter (\<lambda>c. \<not> is_markup c) (cleanText_interview s) = filter (\<lambda>c. \<not> is_markup c) s"
    unfolding cleanText_interview_def
    using k[of rx_emphasis "[]", OF 0] k[of rx_heading "[]", OF 2] k[of rx_list_marker "[]", OF 3]
      trim_keeps[of is_markup, OF sp]
    by simp
  show "filter (\<lambda>c. \<not> is_markup c) (cleanResponseFormatting s) = filter (\<lambda>c. \<not> is_markup c) s"
    unfolding cleanResponseFormatting_def
    using k[of rx_stars "[]", OF 1] k[of rx_heading "[]", OF 2] k[of rx_list_marker "[]", OF 3]
      k[of rx_newlines3 "[CHR 0x0A, CHR 0x0A]", OF 4 nl] trim_keeps[of is_markup, OF sp]
    by simp
qed

subsection \<open>Emphasis markers\<close>

text \<open>
  C2, as the claim states it, fails for the chat normalizer, whose first expression is
  \<open>/(\*\*|\*)/g\<close>: underscores are kept.
\<close>

theorem underscore_kept_counterexample:
  "cleanResponseFormatting ''snake_case'' = ''snake_case''
   \<and> CHR ''_'' \<in> set (cleanResponseFormatting ''snake_case'')"
proof -
  have "cleanResponseFormatting ''snake_case'' = ''snake_case''" by code_simp
  then show ?thesis by simp
qed

text \<open>
  C2, amended. For every input, the output of \<open>cleanText\<close> (salary and interview views)
  holds no \<open>*\<close> and no \<open>_\<close>; the output of \<open>cleanResponseFormatting\<close> (chat view) holds no
  \<open>*\<close> and holds the underscores of the input, all of them.
\<close>

theorem emphasis_markers_removed:
  "CHR ''*'' \<notin> set (cleanText_salary s) \<and> CHR ''_'' \<notin> set (cleanText_salary s)
   \<and> CHR ''*'' \<notin> set (cleanText_interview s) \<and> CHR ''_'' \<notin> set (cleanText_interview s)
   \<and> CHR ''*'' \<notin> set (cleanResponseFormatting s)
   \<and> filter (\<lambda>c. c = CHR ''_'') (cleanResponseFormatting s) = filter (\<lambda>c. c = CHR ''_'') s"
  by (simp add: cleanText_salary_no_emphasis cleanText_interview_no_emphasis
      cleanResponseFormatting_no_star underscores_kept)

subsection \<open>Idempotence\<close>

lemma not_space_marks: "\<not> is_space (CHR ''#'')" "\<not> is_space (CHR ''>'')"
  by (simp_all add: is_space_def)

lemma never_matches_emphasis:
  "CHR ''*'' \<notin> set t \<Longrightarrow> CHR ''_'' \<notin> set t \<Longrightarrow> never_matches rx_emphasis bol t"
  by (induction t arbitrary: bol) (auto simp: rx_emphasis_def)

lemma never_matches_heading: "marker_free bol t \<Longrightarrow> never_matches rx_heading bol t"
proof (induction t arbitrary: bol)
  case Nil
  then show ?case by (simp add: rx_heading_def)
next
  case (Cons c cs)
  have "rx_heading bol (c # cs) = None"
  proof (cases "bol \<and> c = CHR ''#''")
    case True
    then have "begins_with_marker (c # cs)"
      by (simp add: begins_with_marker_def not_space_marks)
    then show ?thesis using Cons.prems True by simp
  next
    case False
    then show ?thesis by (auto simp: rx_heading_def)
  qed
  then show ?case using Cons by simp
qed

lemma never_matches_blockquote: "marker_free bol t \<Longrightarrow> never_matches rx_blockquote bol t"
proof (induction t arbitrary: bol)
  case Nil
  then show ?case by (simp add: rx_blockquote_def)
next
  case (Cons c cs)
  have "rx_blockquote bol (c # cs) = None"
  proof (cases "bol \<and> c = CHR ''>''")
    case True
    then have "begins_with_marker (c # cs)"
      by (simp add: begins_with_marker_def not_space_marks)
    then show ?thesis using Cons.prems True by simp
  next
    case False
    then show ?thesis by (auto simp: rx_blockquote_def)
  qed
  then show ?case using Cons by simp
qed

lemma never_matches_list_marker: "marker_free bol t \<Longrightarrow> never_matches rx_list_marker bol t"
proof (induction t arbitrary: bol)
  case Nil
  then show ?case by (simp add: rx_list_marker_def)
next
  case (Cons c cs)
  have "rx_list_marker bol (c # cs) = None"
  proof (cases bol)
    case True
    then have "\<not> begins_with_marker (c # cs)" using Cons.prems by simp
    then have "takeWhile is_marker_char (dropWhile is_space (c # cs)) = []"
      by (auto simp: begins_with_marker_def takeWhile_eq_Nil_iff split: list.splits)
    then show ?thesis by (simp add: rx_list_marker_def Let_def)
  next
    case False
    then show ?thesis by (simp add: rx_list_marker_def Let_def)
  qed
  then show ?case using Cons by simp
qed

lemma replace_all_never_matches: "never_matches m True s \<Longrightarrow> replace_all m rep s = s"
  by (simp add: replace_all_def replace_go_never_matches)

lemma cleanText_salary_fixpoint:
  assumes "CHR ''*'' \<notin> set t" and "CHR ''_'' \<notin> set t" and "trim t = t"
    and "marker_free True t"
  shows "cleanText_salary t = t"
  using assms
  by (simp add: cleanText_salary_def replace_all_never_matches never_matches_emphasis
      never_matches_heading never_matches_list_marker never_matches_blockquote)

lemma cleanText_interview_fixpoint:
  assumes "CHR ''*'' \<notin> set t" and "CHR ''_'' \<notin> set t" and "trim t = t"
    and "marker_free True t"
  shows "cleanText_interview t = t"
  using assms
  by (simp add: cleanText_interview_def replace_all_never_matches never_matches_emphasis
      never_matches_heading never_matches_list_marker)

lemma trim_cleanText_salary: "trim (cleanText_salary s) = cleanText_salary s"
  using trim_idem by (simp add: cleanText_salary_def trim_def)

lemma trim_cleanText_interview: "trim (cleanText_interview s) = cleanText_interview s"
  using trim_idem by (simp add: cleanText_interview_def trim_def)

text \<open>
  C4, as the claim states it, fails: removing a list marker can bring a heading marker to
  the line start, which only a second pass removes.
\<close>

theorem idempotence_counterexample:
  "cleanText_salary (cleanText_salary ''- #a'') \<noteq> cleanText_salary ''- #a''
   \<and> cleanText_interview (cleanText_interview ''- #a'') \<noteq> cleanText_interview ''- #a''"
proof -
  have "cleanText_salary ''- #a'' = ''#a''" "cleanText_salary ''#a'' = ''a''"
    "cleanText_interview ''- #a'' = ''#a''" "cleanText_interview ''#a'' = ''a''"
    by code_simp+
  then show ?thesis by simp
qed

text \<open>
  C4, amended. \<open>cleanText\<close> (salary and interview views) applied twice gives the same as
  applied once for every input whose first result is marker-free: no line of it has
  \<open>#\<close>, \<open>>\<close>, \<open>-\<close>, \<open>+\<close> or a digit as its first character after white space.
\<close>

theorem idempotent_when_marker_free:
  "(marker_free True (cleanText_salary s) \<longrightarrow>
      cleanText_salary (cleanText_salary s) = cleanText_salary s)
   \<and> (marker_free True (cleanText_interview s) \<longrightarrow>
      cleanText_interview (cleanText_interview s) = cleanText_interview s)"
  by (simp add: cleanText_salary_fixpoint cleanText_interview_fixpoint
      cleanText_salary_no_emphasis cleanText_interview_no_emphasis
      trim_cleanText_salary trim_cleanText_interview)

theorem idempotent_witness:
  "marker_free True (cleanText_salary ''## **Pay** range'')
   \<and> cleanText_salary ''## **Pay** range'' = ''Pay range''
   \<and> cleanText_salary (cleanText_salary ''## **Pay** range'') = ''Pay range''
   \<and> marker_free True (cleanText_interview ''1. Why **us**?'')
   \<and> cleanText_interview (cleanText_interview ''1. Why **us**?'') = ''Why us?''"
proof -
  have a: "cleanText_salary ''## **Pay** range'' = ''Pay range''" by code_simp
  have b: "cleanText_interview ''1. Why **us**?'' = ''Why us?''" by code_simp
  have ma: "marker_free True (cleanText_salary ''## **Pay** range'')"
    unfolding a by code_simp
  have mb: "marker_free True (cleanText_interview ''1. Why **us**?'')"
    unfolding b by code_simp
  show ?thesis
    using ma mb idempotent_when_marker_free[of "''## **Pay** range''"]
      idempotent_when_marker_free[of "''1. Why **us**?''"]
    by (simp add: a b)
qed

subsection \<open>Paragraph blocks\<close>

lemma plain_paragraphD:
  assumes "plain_paragraph p"
  shows "p \<noteq> []" "trim p = p" "\<not> is_space (hd p)" "\<not> is_space (last p)"
    "CHR 0x0A \<notin> set p" "CHR 0x0D \<notin> set p" "CHR ''*'' \<notin> set p" "CHR ''_'' \<notin> set p"
proof -
  show ne: "p \<noteq> []" and tr: "trim p = p" using assms by (simp_all add: plain_paragraph_def)
  have "trim p \<noteq> []" using ne tr by simp
  from trim_ends[OF this] show "\<not> is_space (hd p)" "\<not> is_space (last p)" using tr by simp_all
  show "CHR 0x0A \<notin> set p" "CHR 0x0D \<notin> set p" "CHR ''*'' \<notin> set p" "CHR ''_'' \<notin> set p"
    using assms by (auto simp: plain_paragraph_def list_all_iff)
qed

lemma rx_line_break_other:
  "c \<noteq> CHR 0x0A \<Longrightarrow> c \<noteq> CHR 0x0D \<Longrightarrow> rx_line_break bol (c # cs) = None"
  by (simp add: rx_line_break_def)

lemma rx_para_break_other:
  "c \<noteq> CHR 0x0A \<Longrightarrow> c \<noteq> CHR 0x0D \<Longrightarrow> rx_para_break (c # cs) = None"
  by (simp add: rx_para_break_def rx_line_break_other)

lemma split_go_plain:
  "CHR 0x0A \<notin> set p \<Longrightarrow> CHR 0x0D \<notin> set p \<Longrightarrow>
   split_go rx_para_break 0 cur (p @ rest) = split_go rx_para_break 0 (cur @ p) rest"
proof (induction p arbitrary: cur)
  case Nil
  then show ?case by simp
next
  case (Cons c cs)
  then have "c \<noteq> CHR 0x0A" "c \<noteq> CHR 0x0D" by auto
  then have "rx_para_break (c # cs @ rest) = None" by (rule rx_para_break_other)
  then show ?case using Cons.IH[of "cur @ [c]"] Cons.prems by simp
qed

lemma split_go_skip: "split_go m (length xs) cur (xs @ rest) = split_go m 0 cur rest"
  by (induction xs) simp_all

lemma takeWhile_space_plain:
  assumes "q \<noteq> []" and "\<not> is_space (hd q)"
  shows "takeWhile is_space (q @ rest) = []"
  using assms by (cases q) simp_all

lemma rx_para_break_blank_lines:
  assumes "q \<noteq> []" and "\<not> is_space (hd q)"
  shows "rx_para_break (replicate (Suc (Suc j)) (CHR 0x0A) @ q @ rest) = Some (Suc (Suc j))"
proof -
  have sp: "is_space (CHR 0x0A)" by (simp add: is_space_def)
  have run: "takeWhile is_space (replicate n (CHR 0x0A) @ ys) =
             replicate n (CHR 0x0A) @ takeWhile is_space ys" for n ys
    by (induction n) (simp_all add: sp)
  have w: "takeWhile is_space (replicate (Suc j) (CHR 0x0A) @ q @ rest) = replicate (Suc j) (CHR 0x0A)"
    unfolding run using takeWhile_space_plain[OF assms, of rest] by simp
  have "blank_tail (replicate (Suc j) (CHR 0x0A) @ q @ rest) = Some (Suc j)"
    unfolding blank_tail_def w by (simp del: replicate_Suc)
  then show ?thesis by (simp add: rx_para_break_def rx_line_break_def)
qed

lemma rx_para_break_single:
  assumes "q \<noteq> []" and "\<not> is_space (hd q)"
  shows "rx_para_break (CHR 0x0A # q @ rest) = None"
  using takeWhile_space_plain[OF assms, of rest]
  by (simp add: rx_para_break_def rx_line_break_def blank_tail_def)

lemma join_paragraphs_Cons: "\<exists>rest. join_paragraphs k (q # ps) = q @ rest"
  by (cases ps) simp_all

lemma split_go_join:
  assumes "list_all plain_paragraph ps" and "ps \<noteq> []"
  shows "split_go rx_para_break 0 [] (join_paragraphs (Suc (Suc j)) ps) = ps"
  using assms
proof (induction "Suc (Suc j)" ps rule: join_paragraphs.induct)
  case 1
  then show ?case by simp
next
  case (2 p)
  then have "CHR 0x0A \<notin> set p" "CHR 0x0D \<notin> set p" by (simp_all add: plain_paragraphD)
  then show ?case using split_go_plain[of p "[]" "[]"] by simp
next
  case (3 p q ps)
  have p: "CHR 0x0A \<notin> set p" "CHR 0x0D \<notin> set p" using 3(2) by (simp_all add: plain_paragraphD)
  have q: "q \<noteq> []" "\<not> is_space (hd q)" using 3(2) by (simp_all add: plain_paragraphD)
  obtain rest where rest: "join_paragraphs (Suc (Suc j)) (q # ps) = q @ rest"
    using join_paragraphs_Cons by blast
  have m: "rx_para_break (CHR 0x0A # replicate (Suc j) (CHR 0x0A) @ q @ rest) = Some (Suc (Suc j))"
    using rx_para_break_blank_lines[OF q, of j rest] by simp
  have "split_go rx_para_break 0 [] (join_paragraphs (Suc (Suc j)) (p # q # ps)) =
        split_go rx_para_break 0 p (replicate (Suc (Suc j)) (CHR 0x0A) @ q @ rest)"
    using split_go_plain[OF p, of "[]"] rest by simp
  also have "\<dots> = p # split_go rx_para_break (Suc j) [] (replicate (Suc j) (CHR 0x0A) @ q @ rest)"
    using m by simp
  also have "\<dots> = p # split_go rx_para_break 0 [] (q @ rest)"
    using split_go_skip[of rx_para_break "replicate (Suc j) (CHR 0x0A)" "[]" "q @ rest"]
    by (simp del: replicate_Suc)
  also have "\<dots> = p # q # ps"
    using 3(1) 3(2) rest by simp
  finally show ?case .
qed

lemma join_paragraphs_facts:
  assumes "list_all plain_paragraph ps" and "ps \<noteq> []"
  shows "join_paragraphs k ps \<noteq> []
       \<and> hd (join_paragraphs k ps) = hd (hd ps)
       \<and> last (join_paragraphs k ps) = last (last ps)
       \<and> CHR ''*'' \<notin> set (join_paragraphs k ps)
       \<and> CHR ''_'' \<notin> set (join_paragraphs k ps)"
  using assms
proof (induction k ps rule: join_paragraphs.induct)
  case (1 k)
  then show ?case by simp
next
  case (2 k p)
  then show ?case by (simp add: plain_paragraphD)
next
  case (3 k p q ps)
  then have "join_paragraphs k (q # ps) \<noteq> []
       \<and> last (join_paragraphs k (q # ps)) = last (last (q # ps))
       \<and> CHR ''*'' \<notin> set (join_paragraphs k (q # ps))
       \<and> CHR ''_'' \<notin> set (join_paragraphs k (q # ps))"
    by simp
  moreover have "p \<noteq> []" "CHR ''*'' \<notin> set p" "CHR ''_'' \<notin> set p"
    using 3(2) by (simp_all add: plain_paragraphD)
  ultimately show ?case by auto
qed

lemma never_matches_line_break:
  "CHR 0x0A \<notin> set p \<Longrightarrow> never_matches rx_line_break bol p"
  by (induction p arbitrary: bol) (auto simp: rx_line_break_def split: list.split)

lemma paragraph_blocks_join:
  assumes "list_all plain_paragraph ps" and "ps \<noteq> []"
  shows "paragraph_blocks (join_paragraphs (Suc (Suc j)) ps) = ps"
proof -
  let ?t = "join_paragraphs (Suc (Suc j)) ps"
  note f = join_paragraphs_facts[OF assms, of "Suc (Suc j)"]
  have hp: "plain_paragraph (hd ps)" and lp: "plain_paragraph (last ps)"
    using assms by (auto simp: list_all_iff)
  have e: "replace_all rx_emphasis [] ?t = ?t"
    using f by (simp add: replace_all_never_matches never_matches_emphasis)
  have t: "trim ?t = ?t"
    using f plain_paragraphD(3)[OF hp] plain_paragraphD(4)[OF lp] by (intro trim_id) simp_all
  have s: "split_all rx_para_break ?t = ps"
    using f split_go_join[OF assms, of j] by (simp add: split_all_def)
  have k: "filter (\<lambda>p. trim p \<noteq> []) ps = ps"
    using assms(1) by (auto simp: list_all_iff plain_paragraphD filter_id_conv)
  have m: "map (replace_all rx_line_break ''<br>'') ps = ps"
    using assms(1)
    by (intro map_idI)
      (auto simp: list_all_iff plain_paragraphD replace_all_never_matches never_matches_line_break)
  show ?thesis by (simp add: paragraph_blocks_def e t s k m)
qed

lemma replace_go_line_break_plain:
  "CHR 0x0A \<notin> set p \<Longrightarrow> CHR 0x0D \<notin> set p \<Longrightarrow> CHR 0x0A \<notin> set q \<Longrightarrow>
   replace_go rx_line_break rep 0 bol (p @ CHR 0x0A # q) = p @ rep @ q"
proof (induction p arbitrary: bol)
  case Nil
  have "rx_line_break bol (CHR 0x0A # q) = Some (Suc 0)"
    by (simp add: rx_line_break_def)
  then show ?case
    using Nil replace_go_never_matches[OF never_matches_line_break, of q]
    by simp
next
  case (Cons c cs)
  then have "c \<noteq> CHR 0x0A" "c \<noteq> CHR 0x0D" by auto
  then have "rx_line_break bol (c # cs @ CHR 0x0A # q) = None"
    by (rule rx_line_break_other)
  then show ?case using Cons by simp
qed

lemma paragraph_blocks_single_break:
  assumes "plain_paragraph p" and "plain_paragraph q"
  shows "paragraph_blocks (p @ CHR 0x0A # q) = [p @ ''<br>'' @ q]"
proof -
  let ?t = "p @ CHR 0x0A # q"
  note P = plain_paragraphD[OF assms(1)] and Q = plain_paragraphD[OF assms(2)]
  have e: "replace_all rx_emphasis [] ?t = ?t"
    using P Q by (simp add: replace_all_never_matches never_matches_emphasis)
  have t: "trim ?t = ?t"
    using P Q by (intro trim_id) simp_all
  have "split_go rx_para_break 0 [] ?t = split_go rx_para_break 0 p (CHR 0x0A # q @ [])"
    using split_go_plain[OF P(5) P(6), of "[]" "CHR 0x0A # q"] by simp
  also have "\<dots> = split_go rx_para_break 0 (p @ [CHR 0x0A]) (q @ [])"
    using rx_para_break_single[OF Q(1) Q(3), of "[]"] by simp
  also have "\<dots> = [?t]"
    using split_go_plain[OF Q(5) Q(6), of "p @ [CHR 0x0A]" "[]"] by simp
  finally have s: "split_all rx_para_break ?t = [?t]" by (simp add: split_all_def)
  have m: "replace_all rx_line_break ''<br>'' ?t = p @ ''<br>'' @ q"
    unfolding replace_all_def using P Q by (intro replace_go_line_break_plain)
  show ?thesis by (simp add: paragraph_blocks_def e t s m del: append.simps)
qed

lemma replace_go_survives:
  assumes "\<And>bol t n. m bol t = Some n \<Longrightarrow> x \<notin> set (take n t)"
  shows "x \<in> set (drop k s) \<Longrightarrow> x \<in> set (replace_go m rep k bol s)"
proof (induction s arbitrary: k bol)
  case Nil
  then show ?case by simp
next
  case (Cons c cs)
  show ?case
  proof (cases k)
    case (Suc j)
    then show ?thesis using Cons.prems Cons.IH[of j] by simp
  next
    case 0
    show ?thesis
    proof (cases "m bol (c # cs)")
      case None
      then show ?thesis using 0 Cons.prems Cons.IH[of 0] by auto
    next
      case (Some n)
      show ?thesis
      proof (cases n)
        case 0
        then show ?thesis using \<open>k = 0\<close> Some Cons.prems Cons.IH[of 0] by auto
      next
        case (Suc j)
        have "x \<notin> set (take (Suc j) (c # cs))" using assms[OF Some] Suc by simp
        then have "x \<noteq> c" "x \<notin> set (take j cs)" by simp_all
        moreover have "x \<in> set (c # cs)" using Cons.prems \<open>k = 0\<close> by simp
        moreover have "set cs = set (take j cs) \<union> set (drop j cs)"
          using set_append[of "take j cs" "drop j cs"] by simp
        ultimately have "x \<in> set (drop j cs)" by auto
        then show ?thesis using \<open>k = 0\<close> Some Suc Cons.IH[of j] by simp
      qed
    qed
  qed
qed

lemma rx_line_break_consumes:
  "rx_line_break bol t = Some n \<Longrightarrow> list_all is_space (take n t)"
  by (auto simp: rx_line_break_def is_space_def split: list.splits if_splits)

lemma block_not_blank:
  assumes "trim p \<noteq> []"
  shows "trim (replace_all rx_line_break rep p) \<noteq> []"
proof -
  from assms obtain x where x: "x \<in> set p" "\<not> is_space x"
    by (auto simp: trim_empty_iff list_all_iff)
  have "x \<notin> set (take n t)" if "rx_line_break bol t = Some n" for bol t n
    using rx_line_break_consumes[OF that] x(2) by (auto simp: list_all_iff)
  then have "x \<in> set (replace_go rx_line_break rep 0 True p)"
    using x(1) by (intro replace_go_survives) simp_all
  then show ?thesis using x(2) by (auto simp: trim_empty_iff list_all_iff replace_all_def)
qed

lemma block_no_line_feed: "CHR 0x0A \<notin> set (replace_all rx_line_break ''<br>'' p)"
  unfolding replace_all_def
  by (rule replace_go_removes) (simp_all add: rx_line_break_def)

lemma paragraph_blocks_shape:
  "list_all (\<lambda>b. trim b \<noteq> [] \<and> CHR 0x0A \<notin> set b) (paragraph_blocks text)"
  by (auto simp: paragraph_blocks_def list_all_iff block_not_blank block_no_line_feed)

text \<open>
  C5. The text "**Bold** text", four line feeds, "Next para" gives the two blocks
  "Bold text" and "Next para", each in its \<open>p\<close> element. In general: no block is blank
  and no block holds a line feed; plain paragraphs joined by two or more line feeds come
  back as the blocks, one each; and two plain lines joined by one line feed make one block,
  with \<open><br>\<close> in place of the line feed.
\<close>

theorem block_mode_paragraphs:
  "paragraph_blocks ''**Bold** text\<newline>\<newline>\<newline>\<newline>Next para'' = [''Bold text'', ''Next para'']
   \<and> textToHtmlParagraphs ''**Bold** text\<newline>\<newline>\<newline>\<newline>Next para'' =
       p_tag ''Bold text'' @ p_tag ''Next para''
   \<and> list_all (\<lambda>b. trim b \<noteq> [] \<and> CHR 0x0A \<notin> set b) (paragraph_blocks raw)
   \<and> (list_all plain_paragraph ps \<and> ps \<noteq> [] \<and> 2 \<le> k \<longrightarrow>
        paragraph_blocks (join_paragraphs k ps) = ps)
   \<and> (plain_paragraph p \<and> plain_paragraph q \<longrightarrow>
        paragraph_blocks (p @ CHR 0x0A # q) = [p @ ''<br>'' @ q])"
proof -
  have a: "paragraph_blocks ''**Bold** text\<newline>\<newline>\<newline>\<newline>Next para'' = [''Bold text'', ''Next para'']"
    by code_simp
  have b: "textToHtmlParagraphs ''**Bold** text\<newline>\<newline>\<newline>\<newline>Next para'' =
       p_tag ''Bold text'' @ p_tag ''Next para''"
    unfolding textToHtmlParagraphs_def a by simp
  have c: "paragraph_blocks (join_paragraphs k ps) = ps"
    if "list_all plain_paragraph ps \<and> ps \<noteq> [] \<and> 2 \<le> k"
  proof -
    have "k = Suc (Suc (k - 2))" using that by arith
    then show ?thesis using that paragraph_blocks_join[of ps "k - 2"] by metis
  qed
  have c': "list_all plain_paragraph ps \<and> ps \<noteq> [] \<and> 2 \<le> k \<longrightarrow>
        paragraph_blocks (join_paragraphs k ps) = ps"
    using c by (rule impI)
  have d: "plain_paragraph p \<and> plain_paragraph q \<longrightarrow>
        paragraph_blocks (p @ CHR 0x0A # q) = [p @ ''<br>'' @ q]"
    using paragraph_blocks_single_break[of p q] by (intro impI) (elim conjE)
  show ?thesis
    by (rule conjI[OF a conjI[OF b conjI[OF paragraph_blocks_shape conjI[OF c' d]]]])
qed

theorem block_mode_witness:
  "list_all plain_paragraph [''Dear team,'', ''I am a nurse.'', ''Regards'']
   \<and> paragraph_blocks
       ''Dear team,\<newline>\<newline>\<newline>I am a nurse.\<newline>\<newline>\<newline>Regards'' =
       [''Dear team,'', ''I am a nurse.'', ''Regards'']
   \<and> paragraph_blocks ''Dear team,\<newline>I am a nurse.'' = [''Dear team,<br>I am a nurse.'']"
proof -
  let ?ps = "[''Dear team,'', ''I am a nurse.'', ''Regards'']"
  have pl: "plain_paragraph ''Dear team,''" "plain_paragraph ''I am a nurse.''"
    "plain_paragraph ''Regards''"
    by code_simp+
  have all: "list_all plain_paragraph ?ps" using pl by simp
  have j: "join_paragraphs 3 ?ps =
           ''Dear team,\<newline>\<newline>\<newline>I am a nurse.\<newline>\<newline>\<newline>Regards''"
    by code_simp
  have l: "''Dear team,'' @ CHR 0x0A # ''I am a nurse.'' = ''Dear team,\<newline>I am a nurse.''"
    "[''Dear team,'' @ ''<br>'' @ ''I am a nurse.''] = [''Dear team,<br>I am a nurse.'']"
    by simp_all
  note T = block_mode_paragraphs[where ps = ?ps and k = 3
      and p = "''Dear team,''" and q = "''I am a nurse.''" and raw = "[]"]
  have "list_all plain_paragraph ?ps \<and> ?ps \<noteq> [] \<and> (2::nat) \<le> 3 \<longrightarrow>
        paragraph_blocks (join_paragraphs 3 ?ps) = ?ps"
    by (rule T[THEN conjunct2, THEN conjunct2, THEN conjunct2, THEN conjunct1])
  moreover have "?ps \<noteq> []" "(2::nat) \<le> 3" by simp_all
  ultimately have 1: "paragraph_blocks (join_paragraphs 3 ?ps) = ?ps"
    using all by (elim impE) (intro conjI)
  have "plain_paragraph ''Dear team,'' \<and> plain_paragraph ''I am a nurse.'' \<longrightarrow>
        paragraph_blocks (''Dear team,'' @ CHR 0x0A # ''I am a nurse.'') =
        [''Dear team,'' @ ''<br>'' @ ''I am a nurse.'']"
    by (rule T[THEN conjunct2, THEN conjunct2, THEN conjunct2, THEN conjunct2])
  then have 2: "paragraph_blocks (''Dear team,'' @ CHR 0x0A # ''I am a nurse.'') =
        [''Dear team,'' @ ''<br>'' @ ''I am a nurse.'']"
    using pl by (elim impE) (intro conjI)
  show ?thesis
    using all 1 2 unfolding j l by (intro conjI)
qed

end
